theory Spec2Isabelle
  imports Complex_Main
begin

section \<open>Data model\<close>

text \<open>
  Numbers of the program are IEEE doubles. A finite number is a \<^typ>\<open>real\<close>; where the source
  has to deal with a number that may be NaN or infinite, the model says so at that place.
  The arithmetic of point location and of distances takes the rounding of its results as a
  parameter (section Arithmetic); the statistics and the valuation are computed without
  rounding, and overflow is not part of the model.

  A GeoJSON position is an array \<^verbatim>\<open>[lon, lat, ...]\<close>: longitude, latitude and any further
  components (altitude). A query point is the two-element array \<^verbatim>\<open>[lng, lat]\<close> that the
  callers build. Strings are sequences of 8-bit characters, the code units U+0000 to U+00FF.
\<close>

datatype position = Pos (lon: real) (lat: real) (extra: "real list")

type_synonym point = "real \<times> real"

datatype geometry =
    Point position
  | MultiPoint "position list"
  | LineString "position list"
  | MultiLineString "position list list"
  | Polygon "position list list"
  | MultiPolygon "position list list list"
  | Unsupported

text \<open>\<^term>\<open>Unsupported\<close> is a geometry object whose \<^verbatim>\<open>type\<close> is missing or is none of the six
  names above (a GeometryCollection, for instance).\<close>

datatype jsvalue = JNum real | JStr string | JBool bool | JNull

type_synonym bbox = "real \<times> real \<times> real \<times> real"

text \<open>A feature: its geometry (\<^term>\<open>None\<close> is \<^verbatim>\<open>null\<close>), its attribute map, and the
  \<^verbatim>\<open>__bounds\<close> property the loaders attach (\<^term>\<open>None\<close> when \<^verbatim>\<open>geometryBounds\<close> returned null
  or the property is absent).\<close>

record feature =
  geometry :: "geometry option"
  properties :: "string \<rightharpoonup> jsvalue"
  bounds :: "bbox option"

datatype error = TypeError

section \<open>Arithmetic\<close>

text \<open>
  Every arithmetic operation of the program returns the double nearest to the exact result,
  a tie going to the even significand. The doubles of magnitude from \<^verbatim>\<open>2^e\<close> up to
  \<^verbatim>\<open>2^(e+1)\<close> are the multiples of \<^verbatim>\<open>2^(e-52)\<close>, and below \<^verbatim>\<open>2^-1022\<close> the spacing stays
  \<^verbatim>\<open>2^-1074\<close>. A result beyond the largest double (overflow to Infinity) is not modelled.
\<close>

definition roundEven :: "real \<Rightarrow> int" where
  "roundEven r =
     (let f = \<lfloor>r\<rfloor> in
      if r - of_int f < 1 / 2 then f
      else if r - of_int f > 1 / 2 then f + 1
      else if even f then f else f + 1)"

definition round64 :: "real \<Rightarrow> real" where
  "round64 x =
     (if x = 0 then 0
      else (let e = max \<lfloor>log 2 \<bar>x\<bar>\<rfloor> (- 1022);
                q = 2 powi (e - 52)
            in of_int (roundEven (x / q)) * q))"

text \<open>
  The functions of point location take the rounding as their first argument \<open>rnd\<close>: with
  \<^const>\<open>round64\<close> they are the program as it runs, with the identity they are the same
  formulas in exact arithmetic.
\<close>

section \<open>Strings\<close>

definition upperChar :: "char \<Rightarrow> char" where
  "upperChar c =
     (case map_of (zip ''abcdefghijklmnopqrstuvwxyz'' ''ABCDEFGHIJKLMNOPQRSTUVWXYZ'') c of
        Some u \<Rightarrow> u
      | None \<Rightarrow> c)"

definition toUpperCase :: "string \<Rightarrow> string" where
  "toUpperCase s = map upperChar s"

text \<open>The white space and the line terminators that \<^verbatim>\<open>trim\<close> strips, among the characters of
  the model: TAB, LF, VT, FF, CR, SP and the no-break space U+00A0.\<close>

definition isSpace :: "char \<Rightarrow> bool" where
  "isSpace c =
     (c \<in> set [CHR '' '', CHR 0x09, CHR 0x0A, CHR 0x0B, CHR 0x0C, CHR 0x0D, CHR 0xA0])"

definition trim :: "string \<Rightarrow> string" where
  "trim s = rev (dropWhile isSpace (rev (dropWhile isSpace s)))"

fun startsWith :: "string \<Rightarrow> string \<Rightarrow> bool" where
  "startsWith s [] = True"
| "startsWith [] (c # t) = False"
| "startsWith (d # s) (c # t) = (d = c \<and> startsWith s t)"

text \<open>\<^verbatim>\<open>s.includes(t)\<close>\<close>

fun includesStr :: "string \<Rightarrow> string \<Rightarrow> bool" where
  "includesStr [] t = (t = [])"
| "includesStr (d # s) t = (startsWith (d # s) t \<or> includesStr s t)"


section \<open>Coordinate normalisation\<close>












section \<open>Bounding boxes\<close>



text \<open>\<^verbatim>\<open>pointWithinBounds(point, bounds)\<close>; both arguments are arrays of the right length here.\<close>

definition pointWithinBounds :: "point \<Rightarrow> bbox \<Rightarrow> bool" where
  "pointWithinBounds p b =
     (case b of (minLon, minLat, maxLon, maxLat) \<Rightarrow>
        fst p \<ge> minLon \<and> fst p \<le> maxLon \<and> snd p \<ge> minLat \<and> snd p \<le> maxLat)"




section \<open>Point location\<close>

text \<open>The edge test of \<^verbatim>\<open>pointInRing\<close>, for the edge between \<^verbatim>\<open>ring[i]\<close> and \<^verbatim>\<open>ring[j]\<close>:
  \<^verbatim>\<open>yi > y !== yj > y && x < ((xj - xi) * (y - yi)) / (yj - yi + 0.0) + xi\<close>. The comparisons
  are exact; each of the seven arithmetic results is rounded. The quotient is only computed
  when the two latitudes differ, and then its divisor is not zero.\<close>

definition intersect :: "(real \<Rightarrow> real) \<Rightarrow> point \<Rightarrow> position \<Rightarrow> position \<Rightarrow> bool" where
  "intersect rnd p ri rj =
     (((lat ri > snd p) \<noteq> (lat rj > snd p)) \<and>
      fst p < rnd (rnd (rnd (rnd (lon rj - lon ri) * rnd (snd p - lat ri)) /
                        rnd (rnd (lat rj - lat ri) + 0)) + lon ri))"

text \<open>The loop \<^verbatim>\<open>for (i = 0, j = ring.length - 1; i < ring.length; j = i++)\<close>: the second
  argument is \<^verbatim>\<open>ring[j]\<close>, the list holds \<^verbatim>\<open>ring[i], ring[i+1], ...\<close>.\<close>

fun ringLoop ::
  "(real \<Rightarrow> real) \<Rightarrow> point \<Rightarrow> position \<Rightarrow> position list \<Rightarrow> bool \<Rightarrow> bool"
where
  "ringLoop rnd p rj [] inside = inside"
| "ringLoop rnd p rj (ri # rest) inside =
     ringLoop rnd p ri rest (if intersect rnd p ri rj then \<not> inside else inside)"

definition pointInRing :: "(real \<Rightarrow> real) \<Rightarrow> point \<Rightarrow> position list \<Rightarrow> bool" where
  "pointInRing rnd p ring =
     (if ring = [] then False else ringLoop rnd p (last ring) ring False)"

text \<open>The hole loops of \<^verbatim>\<open>pointInPolygon\<close>, over \<^verbatim>\<open>rings[1], rings[2], ...\<close>.\<close>

fun inHole :: "(real \<Rightarrow> real) \<Rightarrow> point \<Rightarrow> position list list \<Rightarrow> bool" where
  "inHole rnd p [] = False"
| "inHole rnd p (h # hs) = (if pointInRing rnd p h then True else inHole rnd p hs)"

text \<open>The loop over the polygons of a MultiPolygon. \<^verbatim>\<open>rings[0]\<close> of a polygon without rings
  is undefined, and \<^verbatim>\<open>pointInRing\<close> raises a TypeError on reading its length.\<close>

fun multiLoop ::
  "(real \<Rightarrow> real) \<Rightarrow> point \<Rightarrow> position list list list \<Rightarrow> error + bool"
where
  "multiLoop rnd p [] = Inr False"
| "multiLoop rnd p (poly # polys) =
     (case poly of
        [] \<Rightarrow> Inl TypeError
      | outer # holes \<Rightarrow>
          if \<not> pointInRing rnd p outer then multiLoop rnd p polys
          else if \<not> inHole rnd p holes then Inr True
          else multiLoop rnd p polys)"

text \<open>\<^verbatim>\<open>pointInPolygon(point, feature)\<close>; reading \<^verbatim>\<open>geom.type\<close> of a null geometry raises.\<close>

definition pointInPolygon ::
  "(real \<Rightarrow> real) \<Rightarrow> point \<Rightarrow> 'a feature_scheme \<Rightarrow> error + bool"
where
  "pointInPolygon rnd p feature =
     (case geometry feature of
        None \<Rightarrow> Inl TypeError
      | Some (Polygon rings) \<Rightarrow>
          (case rings of
             [] \<Rightarrow> Inl TypeError
           | outer # holes \<Rightarrow>
               if \<not> pointInRing rnd p outer then Inr False
               else if inHole rnd p holes then Inr False
               else Inr True)
      | Some (MultiPolygon polys) \<Rightarrow> multiLoop rnd p polys
      | Some _ \<Rightarrow> Inr False)"

text \<open>The branch conditions of \<^verbatim>\<open>pointInPolygon\<close>: the geometry type is Polygon or
  MultiPolygon.\<close>

fun polygonal :: "geometry \<Rightarrow> bool" where
  "polygonal (Polygon rings) = True"
| "polygonal (MultiPolygon polys) = True"
| "polygonal _ = False"

text \<open>The geometry is present and every polygon of it has its ring 0, so that
  \<^verbatim>\<open>pointInPolygon\<close> raises nothing.\<close>

fun hasOuterRings :: "geometry option \<Rightarrow> bool" where
  "hasOuterRings None = False"
| "hasOuterRings (Some (Polygon rings)) = (rings \<noteq> [])"
| "hasOuterRings (Some (MultiPolygon polys)) = list_all (\<lambda>poly. poly \<noteq> []) polys"
| "hasOuterRings (Some _) = True"

text \<open>The feature has a geometry, of a type other than Polygon and MultiPolygon.\<close>

definition nonPolygon :: "'a feature_scheme \<Rightarrow> bool" where
  "nonPolygon f = (case geometry f of None \<Rightarrow> False | Some g \<Rightarrow> \<not> polygonal g)"

section \<open>Zone classification\<close>

definition zonePriority :: "string list" where
  "zonePriority = [''VE'', ''AE'', ''AO'', ''A'', ''X'']"

text \<open>The inner loop of \<^verbatim>\<open>findFloodZone\<close> (and the loop of \<^verbatim>\<open>findParcelAtPoint\<close>) over the
  features of one layer, in stored order.\<close>

fun featureLoop ::
  "(real \<Rightarrow> real) \<Rightarrow> point \<Rightarrow> 'a feature_scheme list \<Rightarrow> error + 'a feature_scheme option"
where
  "featureLoop rnd p [] = Inr None"
| "featureLoop rnd p (f # fs) =
     (if (case bounds f of Some b \<Rightarrow> \<not> pointWithinBounds p b | None \<Rightarrow> False)
      then featureLoop rnd p fs
      else (case pointInPolygon rnd p f of
              Inl e \<Rightarrow> Inl e
            | Inr True \<Rightarrow> Inr (Some f)
            | Inr False \<Rightarrow> featureLoop rnd p fs))"

text \<open>The containment test as these loops apply it to one feature: the bounding-box check,
  then \<^verbatim>\<open>pointInPolygon\<close>.\<close>

definition containsPoint :: "(real \<Rightarrow> real) \<Rightarrow> point \<Rightarrow> 'a feature_scheme \<Rightarrow> bool" where
  "containsPoint rnd p f =
     ((case bounds f of Some b \<Rightarrow> pointWithinBounds p b | None \<Rightarrow> True) \<and>
      pointInPolygon rnd p f = Inr True)"

text \<open>\<^verbatim>\<open>zoneFeatureMap.get(zoneId) || []\<close>\<close>

definition layerFeatures :: "(string \<rightharpoonup> feature list) \<Rightarrow> string \<Rightarrow> feature list" where
  "layerFeatures zoneFeatureMap zoneId =
     (case zoneFeatureMap zoneId of None \<Rightarrow> [] | Some fs \<Rightarrow> fs)"

fun zoneLoop ::
  "(real \<Rightarrow> real) \<Rightarrow> (string \<rightharpoonup> feature list) \<Rightarrow> point \<Rightarrow> string list \<Rightarrow>
   error + (string \<times> feature) option"
where
  "zoneLoop rnd zoneFeatureMap p [] = Inr None"
| "zoneLoop rnd zoneFeatureMap p (zoneId # rest) =
     (case featureLoop rnd p (layerFeatures zoneFeatureMap zoneId) of
        Inl e \<Rightarrow> Inl e
      | Inr (Some f) \<Rightarrow> Inr (Some (zoneId, f))
      | Inr None \<Rightarrow> zoneLoop rnd zoneFeatureMap p rest)"

text \<open>\<^verbatim>\<open>findFloodZone\<close>: the result carries the zone id and the matched feature (the
  translated description of the zone is display text and is left out).\<close>

definition findFloodZone ::
  "(real \<Rightarrow> real) \<Rightarrow> (string \<rightharpoonup> feature list) \<Rightarrow> point \<Rightarrow>
   error + (string \<times> feature) option"
where
  "findFloodZone rnd zoneFeatureMap p = zoneLoop rnd zoneFeatureMap p zonePriority"

text \<open>\<^verbatim>\<open>findParcelAtPoint\<close>, up to the distance it reports beside the feature.\<close>

definition findParcelAtPoint ::
  "(real \<Rightarrow> real) \<Rightarrow> 'a feature_scheme list option \<Rightarrow> point \<Rightarrow>
   error + 'a feature_scheme option"
where
  "findParcelAtPoint rnd parcelCollection p =
     (case parcelCollection of
        None \<Rightarrow> Inr None
      | Some fs \<Rightarrow> if length fs = 0 then Inr None else featureLoop rnd p fs)"

section \<open>Risk valuation\<close>

definition riskProfiles :: "(string \<times> real) list" where
  "riskProfiles =
     [(''VE'', 0.018), (''AE'', 0.015), (''AO'', 0.012), (''A'', 0.012), (''X'', 0.006),
      (''none'', 0.004)]"

text \<open>\<^verbatim>\<open>riskProfiles[zoneId] ?? riskProfiles.none\<close>, with
  \<^verbatim>\<open>zoneId = zoneResult?.zoneId ?? "none"\<close>.\<close>

definition premiumRate :: "string option \<Rightarrow> real" where
  "premiumRate zoneResult =
     (let zoneId = (case zoneResult of None \<Rightarrow> ''none'' | Some z \<Rightarrow> z) in
      case map_of riskProfiles zoneId of
        Some r \<Rightarrow> r
      | None \<Rightarrow> (case map_of riskProfiles ''none'' of Some r \<Rightarrow> r | None \<Rightarrow> 0))"

text \<open>A number that may fail \<^verbatim>\<open>Number.isFinite\<close>: \<^term>\<open>NonFinite\<close> is NaN or an infinity.\<close>

datatype number = Fin real | NonFinite

text \<open>The figures \<^verbatim>\<open>renderInsuranceInfo\<close> displays. The second argument is the parcel's
  \<^verbatim>\<open>Number(totalValue)\<close>, \<^term>\<open>None\<close> when there is no parcel. The result \<^term>\<open>None\<close>
  is the placeholder branch, otherwise the estimated premium and the recommended coverage.\<close>

definition insuranceEstimate :: "string option \<Rightarrow> number option \<Rightarrow> (real \<times> real) option" where
  "insuranceEstimate zoneResult parcelTotalValue =
     (case parcelTotalValue of
        None \<Rightarrow> None
      | Some NonFinite \<Rightarrow> None
      | Some (Fin rawPropertyValue) \<Rightarrow>
          if rawPropertyValue \<le> 0 then None
          else Some (min (max (rawPropertyValue * premiumRate zoneResult) 450) 7200,
                     min rawPropertyValue 250000))"

section \<open>Nearest shelter\<close>

text \<open>A shelter is a feature of the shelter layer. \<^verbatim>\<open>loadShelters\<close> keeps every normalized
  feature that has a geometry, of whatever type, and attaches no bounds.\<close>

definition WATER_ISLAND_TOKEN :: string where
  "WATER_ISLAND_TOKEN = ''WATER ISLAND''"

definition WATER_ISLAND_SHELTER_NAME :: string where
  "WATER_ISLAND_SHELTER_NAME = ''Water Island Station''"

text \<open>The arithmetic that \<^verbatim>\<open>haversine\<close> runs on: the rounding of \<^verbatim>\<open>+ - * /\<close>, the constant
  \<^verbatim>\<open>Math.PI\<close>, and the functions \<^verbatim>\<open>Math.sin\<close>, \<^verbatim>\<open>Math.cos\<close>, \<^verbatim>\<open>Math.sqrt\<close> (on a number
  that is not negative), \<^verbatim>\<open>Math.atan2\<close> and \<^verbatim>\<open>x ** 2\<close>, whose results the language leaves to
  the implementation. All of them take finite numbers to finite numbers.\<close>

record math =
  rounding :: "real \<Rightarrow> real"
  mathPI :: real
  mathSin :: "real \<Rightarrow> real"
  mathCos :: "real \<Rightarrow> real"
  mathSqrt :: "real \<Rightarrow> real"
  mathAtan2 :: "real \<Rightarrow> real \<Rightarrow> real"
  square :: "real \<Rightarrow> real"

text \<open>\<^verbatim>\<open>Math.atan2(y, x)\<close> on finite arguments, without rounding.\<close>

definition atan2 :: "real \<Rightarrow> real \<Rightarrow> real" where
  "atan2 y x =
     (if x > 0 then arctan (y / x)
      else if x < 0 then (if y \<ge> 0 then arctan (y / x) + pi else arctan (y / x) - pi)
      else if y > 0 then pi / 2
      else if y < 0 then - pi / 2
      else 0)"

text \<open>The arithmetic without rounding, on the functions of analysis.\<close>

definition exactMath :: math where
  "exactMath =
     \<lparr>rounding = (\<lambda>x. x), mathPI = pi, mathSin = sin, mathCos = cos, mathSqrt = sqrt,
      mathAtan2 = atan2, square = (\<lambda>x. x ^ 2)\<rparr>"

definition toRad :: "math \<Rightarrow> real \<Rightarrow> real" where
  "toRad m d = rounding m (rounding m (d * mathPI m) / 180)"

text \<open>\<^verbatim>\<open>haversine(lon1, lat1, lon2, lat2)\<close>. The first two arguments are the coordinates of the
  query point, two numbers; the last two come out of a coordinate array and may be NaN, which
  is \<^term>\<open>None\<close>. A NaN argument makes every intermediate result NaN, and so does
  \<^verbatim>\<open>Math.sqrt\<close> of a negative number: the result is then NaN.\<close>

definition haversine :: "math \<Rightarrow> real \<Rightarrow> real \<Rightarrow> real option \<Rightarrow> real option \<Rightarrow> real option" where
  "haversine m lon1 lat1 lon2' lat2' =
     (case (lon2', lat2') of
        (Some lon2, Some lat2) \<Rightarrow>
          (let R = 6371;
               dLat = toRad m (rounding m (lat2 - lat1));
               dLon = toRad m (rounding m (lon2 - lon1));
               a = rounding m
                     (square m (mathSin m (rounding m (dLat / 2))) +
                      rounding m
                        (rounding m (mathCos m (toRad m lat1) * mathCos m (toRad m lat2)) *
                         square m (mathSin m (rounding m (dLon / 2)))))
           in if a < 0 \<or> rounding m (1 - a) < 0 then None
              else Some (rounding m
                           (R * rounding m
                                  (2 * mathAtan2 m (mathSqrt m a)
                                         (mathSqrt m (rounding m (1 - a)))))))
      | _ \<Rightarrow> None)"

text \<open>\<^verbatim>\<open>a < b\<close> on numbers that may be NaN.\<close>

definition numLess :: "real option \<Rightarrow> real option \<Rightarrow> bool" where
  "numLess a b = (case (a, b) of (Some x, Some y) \<Rightarrow> x < y | _ \<Rightarrow> False)"

text \<open>\<^verbatim>\<open>(feature.properties?.Name || "").trim()\<close>; a truthy name that is no string has no
  \<^verbatim>\<open>trim\<close> method.\<close>

definition trimmedName :: "jsvalue option \<Rightarrow> error + string" where
  "trimmedName v =
     (case v of
        None \<Rightarrow> Inr (trim [])
      | Some JNull \<Rightarrow> Inr (trim [])
      | Some (JStr s) \<Rightarrow> Inr (trim s)
      | Some (JNum r) \<Rightarrow> if r = 0 then Inr (trim []) else Inl TypeError
      | Some (JBool b) \<Rightarrow> if b then Inl TypeError else Inr (trim []))"

text \<open>\<^verbatim>\<open>isWaterIslandParcel\<close>, from \<^verbatim>\<open>parcelFeature?.properties?.Tax_Legal_\<close>.\<close>

definition isWaterIslandParcel :: "'a feature_scheme option \<Rightarrow> bool" where
  "isWaterIslandParcel parcelFeature =
     (case parcelFeature of
        None \<Rightarrow> False
      | Some f \<Rightarrow>
          (case properties f ''Tax_Legal_'' of
             Some (JStr legalDescription) \<Rightarrow>
               includesStr (toUpperCase legalDescription) WATER_ISLAND_TOKEN
           | _ \<Rightarrow> False))"

text \<open>\<^verbatim>\<open>const [lon, lat] = feature.geometry.coordinates\<close>, and the numbers that the arithmetic
  of \<^verbatim>\<open>haversine\<close> makes of \<open>lon\<close> and \<open>lat\<close>. Only the coordinates of a Point hold two numbers.
  Those of the other types hold arrays: such an element is converted through its string, the
  join of its numbers with commas, which is a number only when it is empty (the number 0),
  that is for a ring without positions and for a polygon without rings or with one empty
  ring. An element that is missing is \<^verbatim>\<open>undefined\<close>, hence NaN. Reading the coordinates of a
  null geometry raises, and so does destructuring when there is no coordinate array, as in a
  geometry collection: that is the case \<^term>\<open>Unsupported\<close> here.\<close>

definition ringNumber :: "position list \<Rightarrow> real option" where
  "ringNumber ring = (if ring = [] then Some 0 else None)"

definition polyNumber :: "position list list \<Rightarrow> real option" where
  "polyNumber poly = (if poly = [] \<or> poly = [[]] then Some 0 else None)"

definition numberAt :: "('a \<Rightarrow> real option) \<Rightarrow> 'a list \<Rightarrow> nat \<Rightarrow> real option" where
  "numberAt toNum xs i = (if i < length xs then toNum (xs ! i) else None)"

fun lonLat :: "geometry option \<Rightarrow> error + (real option \<times> real option)" where
  "lonLat None = Inl TypeError"
| "lonLat (Some (Point c)) = Inr (Some (lon c), Some (lat c))"
| "lonLat (Some (MultiPoint cs)) = Inr (None, None)"
| "lonLat (Some (LineString cs)) = Inr (None, None)"
| "lonLat (Some (MultiLineString rings)) =
     Inr (numberAt ringNumber rings 0, numberAt ringNumber rings 1)"
| "lonLat (Some (Polygon rings)) =
     Inr (numberAt ringNumber rings 0, numberAt ringNumber rings 1)"
| "lonLat (Some (MultiPolygon polys)) =
     Inr (numberAt polyNumber polys 0, numberAt polyNumber polys 1)"
| "lonLat (Some Unsupported) = Inl TypeError"

text \<open>The loop of \<^verbatim>\<open>findNearestShelter\<close>; its state is
  \<^verbatim>\<open>(waterIslandShelter, closest)\<close>.\<close>

fun shelterLoop ::
  "math \<Rightarrow> bool \<Rightarrow> point \<Rightarrow> feature list \<Rightarrow>
   feature option \<times> (feature \<times> real option) option \<Rightarrow>
   error + (feature option \<times> (feature \<times> real option) option)"
where
  "shelterLoop m isWI point [] st = Inr st"
| "shelterLoop m isWI point (feature # rest) (waterIslandShelter, closest) =
     (case trimmedName (properties feature ''Name'') of
        Inl e \<Rightarrow> Inl e
      | Inr name \<Rightarrow>
          if toUpperCase name = toUpperCase WATER_ISLAND_SHELTER_NAME \<and> \<not> isWI
          then shelterLoop m isWI point rest (Some feature, closest)
          else
            (case lonLat (geometry feature) of
               Inl e \<Rightarrow> Inl e
             | Inr (lon2, lat2) \<Rightarrow>
                 (let waterIslandShelter' =
                        (if toUpperCase name = toUpperCase WATER_ISLAND_SHELTER_NAME
                         then Some feature else waterIslandShelter);
                      distanceKm = haversine m (fst point) (snd point) lon2 lat2
                  in shelterLoop m isWI point rest
                       (waterIslandShelter',
                        (case closest of
                           None \<Rightarrow> Some (feature, distanceKm)
                         | Some c \<Rightarrow>
                             if numLess distanceKm (snd c) then Some (feature, distanceKm)
                             else closest)))))"

text \<open>\<^verbatim>\<open>findNearestShelter(point, parcelFeature)\<close> over \<^verbatim>\<open>dataStore.shelterFeatures\<close>. The result
  is the shelter feature with \<^verbatim>\<open>distanceKm\<close>, which may be NaN.\<close>

definition findNearestShelter ::
  "math \<Rightarrow> feature list \<Rightarrow> point \<Rightarrow> 'a feature_scheme option \<Rightarrow>
   error + (feature \<times> real option) option"
where
  "findNearestShelter m shelterFeatures point parcelFeature =
     (if length shelterFeatures = 0 then Inr None
      else
        (case shelterLoop m (isWaterIslandParcel parcelFeature) point shelterFeatures
                (None, None) of
           Inl e \<Rightarrow> Inl e
         | Inr (waterIslandShelter, closest) \<Rightarrow>
             (case waterIslandShelter of
                Some w \<Rightarrow>
                  if isWaterIslandParcel parcelFeature
                  then (case lonLat (geometry w) of
                          Inl e \<Rightarrow> Inl e
                        | Inr (lon2, lat2) \<Rightarrow>
                            Inr (Some (w, haversine m (fst point) (snd point) lon2 lat2)))
                  else if closest = None then Inr None
                  else Inr closest
              | None \<Rightarrow> Inr closest)))"

text \<open>\<^verbatim>\<open>getShelterLonLat(feature)\<close>, which the panel calls on the shelter found to build the
  navigation link: the position of a Point, the first position of a MultiPoint.\<close>

definition getShelterLonLat :: "feature option \<Rightarrow> (real \<times> real) option" where
  "getShelterLonLat feature =
     (case feature of
        None \<Rightarrow> None
      | Some f \<Rightarrow>
          (case geometry f of
             Some (Point coords) \<Rightarrow> Some (lon coords, lat coords)
           | Some (MultiPoint cs) \<Rightarrow>
               (if length cs \<noteq> 0 then Some (lon (cs ! 0), lat (cs ! 0)) else None)
           | _ \<Rightarrow> None))"

text \<open>Notions for stating what \<^const>\<open>findNearestShelter\<close> does on Point shelters: the name of
  the shelter can be read; the shelter carries the designated name; the shelter is a Point;
  the distance that the loop computes for it; and the update of \<^verbatim>\<open>closest\<close> by one
  candidate.\<close>

definition nameOk :: "feature \<Rightarrow> bool" where
  "nameOk s = (case trimmedName (properties s ''Name'') of Inl e \<Rightarrow> False | Inr name \<Rightarrow> True)"

definition isWaterIslandShelter :: "feature \<Rightarrow> bool" where
  "isWaterIslandShelter s =
     (case trimmedName (properties s ''Name'') of
        Inl e \<Rightarrow> False
      | Inr name \<Rightarrow> toUpperCase name = toUpperCase WATER_ISLAND_SHELTER_NAME)"

definition isPoint :: "feature \<Rightarrow> bool" where
  "isPoint s = (case geometry s of Some (Point c) \<Rightarrow> True | _ \<Rightarrow> False)"

definition distanceTo :: "math \<Rightarrow> point \<Rightarrow> feature \<Rightarrow> real option" where
  "distanceTo m point s =
     (case lonLat (geometry s) of
        Inl e \<Rightarrow> None
      | Inr (lon2, lat2) \<Rightarrow> haversine m (fst point) (snd point) lon2 lat2)"

definition closer ::
  "math \<Rightarrow> point \<Rightarrow> (feature \<times> real option) option \<Rightarrow> feature \<Rightarrow>
   (feature \<times> real option) option"
where
  "closer m point closest s =
     (case closest of
        None \<Rightarrow> Some (s, distanceTo m point s)
      | Some c \<Rightarrow> if numLess (distanceTo m point s) (snd c) then Some (s, distanceTo m point s)
                  else closest)"

text \<open>The great-circle distance between two places given by longitude and latitude in
  degrees, on a sphere of radius 6371 km: the radius times the angle, at the centre of the
  sphere, between the two places. A place at longitude \<open>l\<close> and latitude \<open>t\<close>, in radians, is
  the point \<open>(cos t cos l, cos t sin l, sin t)\<close> of the unit sphere, and the angle between two
  points of the unit sphere is the arc cosine of their inner product.\<close>

definition unitVector :: "point \<Rightarrow> real \<times> real \<times> real" where
  "unitVector place =
     (let l = fst place * pi / 180; t = snd place * pi / 180
      in (cos t * cos l, cos t * sin l, sin t))"

definition centralAngle :: "point \<Rightarrow> point \<Rightarrow> real" where
  "centralAngle p q =
     (case (unitVector p, unitVector q) of
        ((x1, y1, z1), (x2, y2, z2)) \<Rightarrow> arccos (x1 * x2 + y1 * y2 + z1 * z2))"

definition greatCircleKm :: "point \<Rightarrow> point \<Rightarrow> real" where
  "greatCircleKm p q = 6371 * centralAngle p q"

text \<open>The great-circle distance from a point to a Point shelter.\<close>

definition greatCircleTo :: "point \<Rightarrow> feature \<Rightarrow> real" where
  "greatCircleTo point s =
     (case geometry s of
        Some (Point c) \<Rightarrow> greatCircleKm point (lon c, lat c)
      | _ \<Rightarrow> 0)"

section \<open>Statistics\<close>

text \<open>\<^verbatim>\<open>xs[i]\<close>: \<^term>\<open>None\<close> is \<^verbatim>\<open>undefined\<close>, read outside the array.\<close>

definition elemAt :: "real list \<Rightarrow> int \<Rightarrow> real option" where
  "elemAt xs i = (if 0 \<le> i \<and> i < int (length xs) then Some (xs ! nat i) else None)"

text \<open>The three loops of the ranker: the binary search \<^verbatim>\<open>while (low <= high)\<close>, the walk
  back over equal values and the walk forward over equal values.\<close>

function lowLoop :: "real list \<Rightarrow> real \<Rightarrow> int \<Rightarrow> int \<Rightarrow> int" where
  "lowLoop sortedVs v low high =
     (if low \<le> high
      then (let mid = (low + high) div 2 in
            if (case elemAt sortedVs mid of Some s \<Rightarrow> s < v | None \<Rightarrow> False)
            then lowLoop sortedVs v (mid + 1) high
            else lowLoop sortedVs v low (mid - 1))
      else low)"
  by pat_completeness auto
termination
  by (relation "measure (\<lambda>(sortedVs, v, low, high). nat (high - low + 1))") auto

function firstLoop :: "real list \<Rightarrow> real \<Rightarrow> int \<Rightarrow> int" where
  "firstLoop sortedVs v firstIndex =
     (if firstIndex > 0 \<and> elemAt sortedVs (firstIndex - 1) = Some v
      then firstLoop sortedVs v (firstIndex - 1)
      else firstIndex)"
  by pat_completeness auto
termination
  by (relation "measure (\<lambda>(sortedVs, v, firstIndex). nat firstIndex)") auto

function lastLoop :: "real list \<Rightarrow> real \<Rightarrow> int \<Rightarrow> int" where
  "lastLoop sortedVs v lastEqual =
     (if lastEqual + 1 < int (length sortedVs) \<and> elemAt sortedVs (lastEqual + 1) = Some v
      then lastLoop sortedVs v (lastEqual + 1)
      else lastEqual)"
  by pat_completeness auto
termination
  by (relation "measure (\<lambda>(sortedVs, v, lastEqual). nat (int (length sortedVs) - lastEqual))") auto

declare lowLoop.simps [simp del] firstLoop.simps [simp del] lastLoop.simps [simp del]

text \<open>\<^verbatim>\<open>values.filter(v => Number.isFinite(v)).sort((a, b) => a - b)\<close>\<close>

definition finiteSorted :: "number list \<Rightarrow> real list" where
  "finiteSorted values = sort (concat (map (\<lambda>v. case v of Fin r \<Rightarrow> [r] | NonFinite \<Rightarrow> []) values))"

text \<open>The closure returned in the general case, on a finite \<open>v\<close>. The result is a number
  (\<^term>\<open>NonFinite\<close> if an array read outside its range entered the arithmetic).\<close>

definition generalRank :: "real list \<Rightarrow> real \<Rightarrow> number" where
  "generalRank sortedVs v =
     (if v \<le> sortedVs ! 0 then Fin 0
      else
        (let lastIndex = int (length sortedVs) - 1 in
         if v \<ge> sortedVs ! nat lastIndex then Fin 1
         else
           (let low = lowLoop sortedVs v 0 lastIndex;
                firstIndex = firstLoop sortedVs v (max 0 low);
                lastEqual = lastLoop sortedVs v firstIndex
            in if elemAt sortedVs firstIndex = Some v
               then (let meanIndex = (real_of_int firstIndex + real_of_int lastEqual) / 2
                     in Fin (meanIndex / real_of_int lastIndex))
               else
                 (case (elemAt sortedVs (firstIndex - 1), elemAt sortedVs firstIndex) of
                    (Some prevValue, Some nextValue) \<Rightarrow>
                      (let span = (if nextValue - prevValue = 0 then 1
                                   else nextValue - prevValue);
                           fractionalIndex =
                             real_of_int firstIndex - 1 + (v - prevValue) / span
                       in Fin (fractionalIndex / real_of_int lastIndex))
                  | _ \<Rightarrow> NonFinite))))"

text \<open>\<^verbatim>\<open>createPercentileRanker(values)\<close> applied to a query value; \<^term>\<open>None\<close> is \<^verbatim>\<open>null\<close>.\<close>

definition createPercentileRanker :: "number list \<Rightarrow> number \<Rightarrow> number option" where
  "createPercentileRanker values =
     (let sortedVs = finiteSorted values in
      if length sortedVs = 0 then (\<lambda>value. None)
      else if length sortedVs = 1
        then (\<lambda>value. case value of Fin v \<Rightarrow> Some (Fin 0.5) | NonFinite \<Rightarrow> None)
      else if sortedVs ! 0 = sortedVs ! (length sortedVs - 1)
        then (\<lambda>value. case value of Fin v \<Rightarrow> Some (Fin 0.5) | NonFinite \<Rightarrow> None)
      else (\<lambda>value. case value of
                      NonFinite \<Rightarrow> None
                    | Fin v \<Rightarrow> Some (generalRank sortedVs v)))"

text \<open>The general-case rules of the specification, as they are stated, on the sorted
  distribution \<open>xs\<close>: below the minimum 0; at or above the maximum 1; for a value equal to
  stored values the mean of the positions of all its occurrences, divided by the count minus
  one; for a value strictly between two stored values the index interpolated between their
  positions, divided by the count minus one.\<close>

definition matchingIndices :: "real list \<Rightarrow> real \<Rightarrow> nat list" where
  "matchingIndices xs v = filter (\<lambda>i. xs ! i = v) [0..<length xs]"

definition meanIndex :: "real list \<Rightarrow> real \<Rightarrow> real" where
  "meanIndex xs v =
     sum_list (map real (matchingIndices xs v)) / real (length (matchingIndices xs v))"

definition interpolatedIndex :: "real list \<Rightarrow> real \<Rightarrow> real" where
  "interpolatedIndex xs v =
     (let i = length (filter (\<lambda>s. s < v) xs)
      in real i - 1 + (v - xs ! (i - 1)) / (xs ! i - xs ! (i - 1)))"

definition specGeneralRank :: "real list \<Rightarrow> real \<Rightarrow> real" where
  "specGeneralRank xs v =
     (if v < xs ! 0 then 0
      else if v \<ge> xs ! (length xs - 1) then 1
      else if v \<in> set xs then meanIndex xs v / (real (length xs) - 1)
      else interpolatedIndex xs v / (real (length xs) - 1))"

section \<open>Parcel values\<close>




text \<open>A parcel as \<^verbatim>\<open>loadParcelValues\<close> builds it: the feature with its bounds and the derived
  values (the display name and the centroid are left out).\<close>

record parcel = feature +
  landValue :: real
  improvementValue :: real
  totalValue :: real
  valuePerSqMeter :: real
  valuePerAcre :: real



text \<open>\<^verbatim>\<open>metricDistributions\<close>: one value is pushed to each array for every parcel.\<close>

definition metricDistributions :: "parcel list \<Rightarrow> real list \<times> real list \<times> real list" where
  "metricDistributions parcels =
     (map totalValue parcels, map improvementValue parcels, map valuePerAcre parcels)"

text \<open>The percentile triple attached to a parcel.\<close>

definition percentiles :: "parcel list \<Rightarrow> parcel \<Rightarrow> number option \<times> number option \<times> number option"
where
  "percentiles parcels f =
     (case metricDistributions parcels of
        (totals, improvements, perAcre) \<Rightarrow>
          (createPercentileRanker (map Fin totals) (Fin (totalValue f)),
           createPercentileRanker (map Fin improvements) (Fin (improvementValue f)),
           createPercentileRanker (map Fin perAcre) (Fin (valuePerAcre f))))"

section \<open>Quantile breaks\<close>




section \<open>Verified properties\<close>

subsection \<open>Rounding to the nearest double\<close>

lemma roundEven_near:
  assumes "\<bar>r - of_int m\<bar> < 1 / 2"
  shows "roundEven r = m"
proof -
  have "\<lfloor>r\<rfloor> = m \<or> \<lfloor>r\<rfloor> = m - 1" using assms by linarith
  then show ?thesis
  proof
    assume f: "\<lfloor>r\<rfloor> = m"
    then have "r - of_int m < 1 / 2" using assms by linarith
    with f show ?thesis by (simp add: roundEven_def)
  next
    assume f: "\<lfloor>r\<rfloor> = m - 1"
    then have "r - of_int (m - 1) > 1 / 2" using assms by (simp; linarith)
    with f show ?thesis by (simp add: roundEven_def Let_def)
  qed
qed

lemma round64_eq:
  assumes e: "2 powi e \<le> \<bar>x\<bar>" "\<bar>x\<bar> < 2 powi (e + 1)" "- 1022 \<le> e"
    and m: "\<bar>x / 2 powi (e - 52) - of_int m\<bar> < 1 / 2"
  shows "round64 x = of_int m * 2 powi (e - 52)"
proof -
  have pos: "0 < \<bar>x\<bar>" using e(1) by (smt (verit) zero_less_power_int)
  then have x0: "x \<noteq> 0" by auto
  have p1: "2 powr (real_of_int e) = 2 powi e" by (simp add: powr_real_of_int')
  have "2 powr (real_of_int e + 1) = 2 powr (real_of_int (e + 1))" by simp
  also have "\<dots> = 2 powi (e + 1)" using powr_real_of_int' [of 2 "e + 1"] by simp
  finally have p2: "2 powr (real_of_int e + 1) = 2 powi (e + 1)" .
  have "\<lfloor>log 2 \<bar>x\<bar>\<rfloor> = e"
    using e pos by (simp add: floor_log_eq_powr_iff p1 p2)
  then show ?thesis
    using x0 e(3) roundEven_near [OF m] by (simp add: round64_def Let_def max_def)
qed

lemma round64_int:
  assumes "\<bar>n\<bar> < 2 ^ 53"
  shows "round64 (of_int n) = of_int n"
proof (cases "n = 0")
  case True
  then show ?thesis by (simp add: round64_def)
next
  case False
  define x :: real where "x = of_int n"
  define e where "e = \<lfloor>log 2 \<bar>x\<bar>\<rfloor>"
  have x1: "1 \<le> \<bar>x\<bar>" using False by (simp add: x_def)
  have x53: "\<bar>x\<bar> < 2 ^ 53"
  proof -
    have "real_of_int \<bar>n\<bar> < real_of_int (2 ^ 53)" using assms by (simp only: of_int_less_iff)
    then show ?thesis by (simp add: x_def)
  qed
  have p: "2 powr (real_of_int k) = 2 powi k" for k :: int
    using powr_real_of_int' [of 2 k] by simp
  have eb: "2 powr (real_of_int e) \<le> \<bar>x\<bar> \<and> \<bar>x\<bar> < 2 powr (real_of_int e + 1)"
    using floor_log_eq_powr_iff [of "\<bar>x\<bar>" 2 e] x1 by (simp add: e_def)
  have "2 powr (real_of_int e + 1) = 2 powr (real_of_int (e + 1))" by simp
  then have p2: "2 powr (real_of_int e + 1) = 2 powi (e + 1)" by (simp only: p)
  have lo: "2 powi e \<le> \<bar>x\<bar>" and hi: "\<bar>x\<bar> < 2 powi (e + 1)"
    using eb by (simp_all only: p p2)
  have e0: "0 \<le> e" using x1 by (simp add: e_def)
  have e52: "e \<le> 52"
  proof (rule ccontr)
    assume "\<not> e \<le> 52"
    then have "53 \<le> e" by simp
    then have "(2::real) powi 53 \<le> 2 powi e" by (intro power_int_increasing) simp_all
    with lo x53 show False by simp
  qed
  define m where "m = n * 2 ^ nat (52 - e)"
  have q: "(2::real) powi (e - 52) = 1 / 2 ^ nat (52 - e)"
    using e52 by (simp add: power_int_def field_simps)
  have "x / 2 powi (e - 52) = of_int m"
    by (simp add: q m_def x_def)
  then have near: "\<bar>x / 2 powi (e - 52) - of_int m\<bar> < 1 / 2" by simp
  have "round64 x = of_int m * 2 powi (e - 52)"
    using round64_eq [OF lo hi _ near] e0 by simp
  also have "\<dots> = x" by (simp add: q m_def x_def)
  finally show ?thesis by (simp add: x_def)
qed

lemma round64_numeral [simp]:
  "\<bar>numeral k :: int\<bar> < 2 ^ 53 \<Longrightarrow> round64 (numeral k) = numeral k"
  "\<bar>numeral k :: int\<bar> < 2 ^ 53 \<Longrightarrow> round64 (- numeral k) = - numeral k"
  "round64 0 = 0" "round64 1 = 1" "round64 (- 1) = - 1"
  using round64_int [of "numeral k"] round64_int [of "- numeral k"] round64_int [of 1]
    round64_int [of "- 1"] round64_int [of 0]
  by simp_all

subsection \<open>Auxiliary facts about the point-location loops\<close>

lemma multiLoop_total:
  "list_all (\<lambda>poly. poly \<noteq> []) polys \<Longrightarrow> \<exists>b. multiLoop rnd p polys = Inr b"
  by (induction polys) (auto split: list.splits)

lemma pointInPolygon_total:
  "hasOuterRings (geometry f) \<Longrightarrow> \<exists>b. pointInPolygon rnd p f = Inr b"
  by (cases "geometry f" rule: hasOuterRings.cases)
     (auto simp: pointInPolygon_def multiLoop_total split: list.splits)

lemma pointInPolygon_not_polygonal:
  "geometry f = Some g \<Longrightarrow> \<not> polygonal g \<Longrightarrow> pointInPolygon rnd p f = Inr False"
  by (cases g) (auto simp: pointInPolygon_def)

lemma featureLoop_find:
  "\<forall>f\<in>set fs. hasOuterRings (geometry f) \<Longrightarrow>
   featureLoop rnd p fs = Inr (find (containsPoint rnd p) fs)"
proof (induction fs)
  case Nil
  show ?case by simp
next
  case (Cons f fs)
  then obtain b where b: "pointInPolygon rnd p f = Inr b"
    using pointInPolygon_total [of f rnd p] by auto
  with Cons show ?case
    by (cases b) (auto simp: containsPoint_def split: option.splits)
qed

lemma featureLoop_Some:
  "featureLoop rnd p fs = Inr (Some f) \<Longrightarrow> f \<in> set fs \<and> containsPoint rnd p f"
  by (induction fs)
     (auto simp: containsPoint_def split: if_splits option.splits sum.splits bool.splits)

lemma zoneLoop_find:
  "\<forall>z\<in>set zs. \<forall>f\<in>set (layerFeatures m z). hasOuterRings (geometry f) \<Longrightarrow>
   zoneLoop rnd m p zs =
     Inr (case find (\<lambda>z. \<exists>f\<in>set (layerFeatures m z). containsPoint rnd p f) zs of
            None \<Rightarrow> None
          | Some z \<Rightarrow> Some (z, the (find (containsPoint rnd p) (layerFeatures m z))))"
proof (induction zs)
  case Nil
  show ?case by simp
next
  case (Cons z zs)
  have fl: "featureLoop rnd p (layerFeatures m z) = Inr (find (containsPoint rnd p) (layerFeatures m z))"
    using Cons.prems by (simp add: featureLoop_find)
  show ?case
  proof (cases "find (containsPoint rnd p) (layerFeatures m z)")
    case None
    then have "\<not> (\<exists>f\<in>set (layerFeatures m z). containsPoint rnd p f)"
      by (simp add: find_None_iff)
    with None fl Cons show ?thesis by simp
  next
    case (Some f)
    then have "\<exists>f\<in>set (layerFeatures m z). containsPoint rnd p f"
      by (metis find_None_iff option.distinct(1))
    with Some fl show ?thesis by simp
  qed
qed

lemma zoneLoop_Some:
  "zoneLoop rnd m p zs = Inr (Some (z, f)) \<Longrightarrow>
     z \<in> set zs \<and> f \<in> set (layerFeatures m z) \<and> containsPoint rnd p f"
  by (induction zs) (auto split: sum.splits option.splits dest: featureLoop_Some)

subsection \<open>Zone classification by priority\<close>




subsection \<open>Features that are not polygons\<close>

text \<open>
  Claim C10. For a feature whose geometry type is neither Polygon nor MultiPolygon (Point,
  MultiPoint, LineString, MultiLineString, or a missing or unknown type),
  \<^const>\<open>pointInPolygon\<close> returns false at every point. Hence a feature returned by
  \<^const>\<open>findFloodZone\<close> or by \<^const>\<open>findParcelAtPoint\<close> is never such a feature, and over
  layers (or a parcel collection) holding only such features both return none.
\<close>

theorem non_polygon_never_matches:
  "(nonPolygon f \<longrightarrow> pointInPolygon rnd p f = Inr False)
   \<and> (findFloodZone rnd m p = Inr (Some (z, zf)) \<longrightarrow> \<not> nonPolygon zf)
   \<and> (findParcelAtPoint rnd pc p = Inr (Some pf) \<longrightarrow> \<not> nonPolygon pf)
   \<and> ((\<forall>z\<in>set zonePriority. \<forall>f\<in>set (layerFeatures m z). nonPolygon f) \<longrightarrow>
        findFloodZone rnd m p = Inr None)
   \<and> ((\<forall>f\<in>set fs. nonPolygon f) \<longrightarrow> findParcelAtPoint rnd (Some fs) p = Inr None)"
proof -
  have np_false: "pointInPolygon rnd p f' = Inr False" if "nonPolygon f'" for f' :: "'x feature_scheme"
    using that pointInPolygon_not_polygonal [of f' _ rnd p]
    by (auto simp: nonPolygon_def split: option.splits)
  have match: "\<not> nonPolygon f'" if "containsPoint rnd p f'" for f' :: "'x feature_scheme"
    using that np_false [of f'] by (auto simp: containsPoint_def)
  have hr: "hasOuterRings (geometry f')" if "nonPolygon f'" for f' :: "'x feature_scheme"
  proof -
    from that obtain g where g: "geometry f' = Some g" "\<not> polygonal g"
      by (auto simp: nonPolygon_def split: option.splits)
    then show ?thesis by (cases g) auto
  qed
  have a: "nonPolygon f \<longrightarrow> pointInPolygon rnd p f = Inr False"
    using np_false by blast
  have b: "findFloodZone rnd m p = Inr (Some (z, zf)) \<longrightarrow> \<not> nonPolygon zf"
    unfolding findFloodZone_def using zoneLoop_Some [of rnd m p zonePriority z zf] match by blast
  have c: "findParcelAtPoint rnd pc p = Inr (Some pf) \<longrightarrow> \<not> nonPolygon pf"
    unfolding findParcelAtPoint_def using featureLoop_Some [of rnd p _ pf] match
    by (auto split: option.splits if_splits)
  have d: "(\<forall>z\<in>set zonePriority. \<forall>f\<in>set (layerFeatures m z). nonPolygon f) \<longrightarrow>
        findFloodZone rnd m p = Inr None"
  proof
    assume np: "\<forall>z\<in>set zonePriority. \<forall>f\<in>set (layerFeatures m z). nonPolygon f"
    then have "\<forall>z\<in>set zonePriority. \<forall>f\<in>set (layerFeatures m z). hasOuterRings (geometry f)"
      using hr by blast
    from zoneLoop_find [OF this, of rnd p] have
      "findFloodZone rnd m p =
         Inr (case find (\<lambda>z. \<exists>f\<in>set (layerFeatures m z). containsPoint rnd p f) zonePriority of
            None \<Rightarrow> None
          | Some z \<Rightarrow> Some (z, the (find (containsPoint rnd p) (layerFeatures m z))))"
      by (simp add: findFloodZone_def)
    moreover have "find (\<lambda>z. \<exists>f\<in>set (layerFeatures m z). containsPoint rnd p f) zonePriority = None"
      using np match by (auto simp: find_None_iff)
    ultimately show "findFloodZone rnd m p = Inr None" by simp
  qed
  have e: "(\<forall>f\<in>set fs. nonPolygon f) \<longrightarrow> findParcelAtPoint rnd (Some fs) p = Inr None"
  proof
    assume np: "\<forall>f\<in>set fs. nonPolygon f"
    then have "\<forall>f\<in>set fs. hasOuterRings (geometry f)" using hr by blast
    from featureLoop_find [OF this, of rnd p] have "featureLoop rnd p fs = Inr (find (containsPoint rnd p) fs)" .
    moreover have "find (containsPoint rnd p) fs = None"
      using np match by (auto simp: find_None_iff)
    ultimately show "findParcelAtPoint rnd (Some fs) p = Inr None"
      by (simp add: findParcelAtPoint_def)
  qed
  from a b c d e show ?thesis by blast
qed

theorem non_polygon_never_matches_witness:
  "pointInPolygon round64 (1, 2)
      \<lparr>geometry = Some (LineString [Pos 0 0 [], Pos 4 0 [], Pos 4 4 [], Pos 0 0 []]),
       properties = Map.empty, bounds = None\<rparr> = Inr False
   \<and> findFloodZone round64
       [''VE'' \<mapsto> [\<lparr>geometry = Some (Point (Pos 1 2 [])), properties = Map.empty,
                     bounds = Some (1, 2, 1, 2)\<rparr>]] (1, 2) = Inr None
   \<and> findParcelAtPoint round64
       (Some [\<lparr>geometry = Some Unsupported, properties = Map.empty, bounds = None\<rparr>]) (1, 2)
       = Inr None"
  using non_polygon_never_matches [where rnd = round64 and p = "(1, 2)"
      and f = "\<lparr>geometry = Some (LineString [Pos 0 0 [], Pos 4 0 [], Pos 4 4 [], Pos 0 0 []]),
                properties = Map.empty, bounds = None\<rparr>"
      and m = "[''VE'' \<mapsto> [\<lparr>geometry = Some (Point (Pos 1 2 [])), properties = Map.empty,
                                 bounds = Some (1, 2, 1, 2)\<rparr>]]"
      and z = "''VE''"
      and zf = "\<lparr>geometry = Some Unsupported, properties = Map.empty, bounds = None\<rparr>"
      and pc = None
      and pf = "\<lparr>geometry = Some Unsupported, properties = Map.empty, bounds = None\<rparr>"
      and fs = "[\<lparr>geometry = Some Unsupported, properties = Map.empty, bounds = None\<rparr>]"]
  by (simp add: zonePriority_def layerFeatures_def nonPolygon_def)

subsection \<open>Premium estimate and recommended coverage\<close>

lemma premiumRate_cases:
  "premiumRate (Some ''VE'') = 0.018" "premiumRate (Some ''AE'') = 0.015"
  "premiumRate (Some ''AO'') = 0.012" "premiumRate (Some ''A'') = 0.012"
  "premiumRate (Some ''X'') = 0.006" "premiumRate (Some ''none'') = 0.004"
  "premiumRate None = 0.004"
  by (simp_all add: premiumRate_def riskProfiles_def)

lemma insuranceEstimate_pos:
  "0 < v \<Longrightarrow> insuranceEstimate z (Some (Fin v)) =
     Some (min (max (v * premiumRate z) 450) 7200, min v 250000)"
  by (simp add: insuranceEstimate_def)

text \<open>
  Claim C5. For each zone id VE, AE, AO, A, X and none (the id used when no zone was found)
  and every positive finite total value \<open>v\<close>, the premium is \<open>v\<close> times the zone's rate
  (0.018, 0.015, 0.012, 0.012, 0.006, 0.004), raised to at least 450 and capped at 7200, and
  the recommended coverage is the smaller of \<open>v\<close> and 250000. Zone AE with a total value of
  1000000 gives premium 7200 and coverage 250000.
\<close>

theorem premium_and_coverage:
  assumes "0 < v"
  shows "insuranceEstimate (Some ''VE'') (Some (Fin v)) =
           Some (min (max (v * 0.018) 450) 7200, min v 250000)
    \<and> insuranceEstimate (Some ''AE'') (Some (Fin v)) =
           Some (min (max (v * 0.015) 450) 7200, min v 250000)
    \<and> insuranceEstimate (Some ''AO'') (Some (Fin v)) =
           Some (min (max (v * 0.012) 450) 7200, min v 250000)
    \<and> insuranceEstimate (Some ''A'') (Some (Fin v)) =
           Some (min (max (v * 0.012) 450) 7200, min v 250000)
    \<and> insuranceEstimate (Some ''X'') (Some (Fin v)) =
           Some (min (max (v * 0.006) 450) 7200, min v 250000)
    \<and> insuranceEstimate (Some ''none'') (Some (Fin v)) =
           Some (min (max (v * 0.004) 450) 7200, min v 250000)
    \<and> insuranceEstimate None (Some (Fin v)) =
           Some (min (max (v * 0.004) 450) 7200, min v 250000)
    \<and> insuranceEstimate (Some ''AE'') (Some (Fin 1000000)) = Some (7200, 250000)"
  using assms by (simp add: insuranceEstimate_pos premiumRate_cases)

theorem premium_and_coverage_witness:
  "insuranceEstimate (Some ''X'') (Some (Fin 100000)) = Some (600, 100000)
   \<and> insuranceEstimate (Some ''AE'') (Some (Fin 1000000)) = Some (7200, 250000)"
  using premium_and_coverage [of 100000] by simp

subsection \<open>Quantile breaks\<close>








subsection \<open>Coordinate normalisation in the canonical system\<close>











subsection \<open>Parcel values fed to the percentile rankers\<close>









subsection \<open>Nearest shelter and the Water Island override\<close>

text \<open>
  Claim C3. The resolver is to return the shelter at the least haversine distance among
  those that are not the designated one. Here the shelter layer holds a MultiPoint shelter,
  listed first, and a Point shelter at the query point itself; neither carries the designated
  name and there is no parcel context. \<^const>\<open>findNearestShelter\<close> returns the MultiPoint
  shelter with the distance NaN, whatever the arithmetic: the destructuring takes the first
  position of the shelter for its longitude and finds nothing for its latitude, the distance
  NaN is recorded for this first candidate, and no later distance compares less than NaN.
  The Point shelter, at distance 0, is not returned. \<^const>\<open>getShelterLonLat\<close>, which the panel
  applies to the shelter returned, does read the first position of a MultiPoint.
\<close>

theorem multipoint_shelter_is_returned:
  "findNearestShelter m
     [\<lparr>geometry = Some (MultiPoint [Pos (- 65) 18 []]),
       properties = [''Name'' \<mapsto> JStr ''Harbor Hall''], bounds = None\<rparr>,
      \<lparr>geometry = Some (Point (Pos (- 64) 19 [])),
       properties = [''Name'' \<mapsto> JStr ''Gym''], bounds = None\<rparr>]
     (- 64, 19) (None :: feature option)
   = Inr (Some (\<lparr>geometry = Some (MultiPoint [Pos (- 65) 18 []]),
                  properties = [''Name'' \<mapsto> JStr ''Harbor Hall''], bounds = None\<rparr>, None))
   \<and> getShelterLonLat
       (Some \<lparr>geometry = Some (MultiPoint [Pos (- 65) 18 []]),
              properties = [''Name'' \<mapsto> JStr ''Harbor Hall''], bounds = None\<rparr>)
     = Some (- 65, 18)
   \<and> haversine exactMath (- 64) 19 (Some (- 64)) (Some 19) = Some 0"
  by (simp add: findNearestShelter_def isWaterIslandParcel_def trimmedName_def trim_def
        isSpace_def toUpperCase_def upperChar_def WATER_ISLAND_SHELTER_NAME_def haversine_def
        numLess_def getShelterLonLat_def exactMath_def toRad_def atan2_def Let_def)

subsection \<open>The resolver on Point shelters\<close>

text \<open>In exact arithmetic the distance that \<^const>\<open>haversine\<close> computes between two places is
  their great-circle distance: with \<open>d\<close> the inner product of the two unit vectors, the
  quantity \<open>a\<close> of the source is \<open>(1 - d) / 2\<close>, and twice the arc tangent it takes is the arc
  cosine of \<open>d\<close>.\<close>

lemma half_angle:
  assumes "- 1 \<le> d" "d \<le> 1"
  shows "2 * arcsin (sqrt ((1 - d) / 2)) = arccos d"
proof -
  define th where "th = arccos d"
  have th: "0 \<le> th" "th \<le> pi" "cos th = d"
    using assms by (simp_all add: th_def arccos_lbound arccos_ubound)
  have "cos (2 * (th / 2)) = 1 - 2 * (sin (th / 2))\<^sup>2" by (rule cos_double_sin)
  then have "(1 - d) / 2 = (sin (th / 2))\<^sup>2" using th(3) by simp
  moreover have "0 \<le> sin (th / 2)" using th by (intro sin_ge_zero) auto
  ultimately have "sqrt ((1 - d) / 2) = sin (th / 2)" by simp
  moreover have "arcsin (sin (th / 2)) = th / 2"
    using th pi_ge_zero by (intro arcsin_sin) auto
  ultimately show ?thesis by (simp add: th_def)
qed

lemma atan2_arcsin:
  assumes "0 \<le> a" "a \<le> 1"
  shows "atan2 (sqrt a) (sqrt (1 - a)) = arcsin (sqrt a)"
proof (cases "a = 1")
  case True
  then show ?thesis by (simp add: atan2_def)
next
  case False
  with assms have a1: "a < 1" by simp
  then have pos: "0 < sqrt (1 - a)" by simp
  have lt: "sqrt a < 1" using assms a1 by simp
  have ge: "- 1 < sqrt a" using assms by (smt (verit) real_sqrt_ge_zero)
  have "arcsin (sqrt a) = arctan (sqrt a / sqrt (1 - (sqrt a)\<^sup>2))"
    using ge lt by (rule arcsin_arctan)
  also have "(sqrt a)\<^sup>2 = a" using assms by simp
  finally show ?thesis using pos by (simp add: atan2_def)
qed

lemma inner_product_bounds:
  fixes p1 p2 l :: real
  shows "- 1 \<le> cos p1 * cos p2 * cos l + sin p1 * sin p2"
    and "cos p1 * cos p2 * cos l + sin p1 * sin p2 \<le> 1"
proof -
  define d where "d = cos p1 * cos p2 * cos l + sin p1 * sin p2"
  define c where "c = cos l"
  have c: "- 1 \<le> c" "c \<le> 1" by (simp_all add: c_def)
  define cc where "cc = cos p1 * cos p2"
  define ss where "ss = sin p1 * sin p2"
  have e: "cos (p1 - p2) = cc + ss" "cos (p1 + p2) = cc - ss"
    by (simp_all add: cc_def ss_def cos_diff cos_add)
  have "d = cc * c + ss" by (simp add: d_def c_def cc_def ss_def)
  also have "\<dots> = (1 + c) / 2 * (cc + ss) + (1 - c) / 2 * (- (cc - ss))"
    by (simp add: field_simps)
  finally have eq: "d = (1 + c) / 2 * cos (p1 - p2) + (1 - c) / 2 * (- cos (p1 + p2))"
    by (simp only: e)
  define A where "A = (1 + c) / 2 * cos (p1 - p2)"
  define B where "B = (1 - c) / 2 * (- cos (p1 + p2))"
  have dAB: "d = A + B" unfolding A_def B_def by (rule eq)
  have "(1 + c) / 2 * cos (p1 - p2) \<le> (1 + c) / 2 * 1"
    using c by (intro mult_left_mono) auto
  then have u1: "A \<le> (1 + c) / 2" by (simp add: A_def)
  have "(1 - c) / 2 * (- cos (p1 + p2)) \<le> (1 - c) / 2 * 1"
    using c cos_ge_minus_one [of "p1 + p2"] by (intro mult_left_mono) auto
  then have u2: "B \<le> (1 - c) / 2" by (simp add: B_def)
  have "(1 + c) / 2 * (- 1) \<le> (1 + c) / 2 * cos (p1 - p2)"
    using c by (intro mult_left_mono) auto
  then have l1: "- ((1 + c) / 2) \<le> A" by (simp add: A_def)
  have "(1 - c) / 2 * (- 1) \<le> (1 - c) / 2 * (- cos (p1 + p2))"
    using c by (intro mult_left_mono) auto
  then have l2: "- ((1 - c) / 2) \<le> B" by (simp add: B_def)
  have "d \<le> 1" using dAB u1 u2 by (simp add: field_simps)
  then show "cos p1 * cos p2 * cos l + sin p1 * sin p2 \<le> 1" by (simp only: d_def)
  have "- 1 \<le> d" using dAB l1 l2 by (simp add: field_simps)
  then show "- 1 \<le> cos p1 * cos p2 * cos l + sin p1 * sin p2" by (simp only: d_def)
qed

lemma haversine_exact:
  "haversine exactMath lon1 lat1 (Some lon2) (Some lat2)
     = Some (greatCircleKm (lon1, lat1) (lon2, lat2))"
proof -
  define p1 where "p1 = lat1 * pi / 180"
  define p2 where "p2 = lat2 * pi / 180"
  define l1 where "l1 = lon1 * pi / 180"
  define l2 where "l2 = lon2 * pi / 180"
  define d where "d = cos p1 * cos p2 * cos (l2 - l1) + sin p1 * sin p2"
  define a where "a = (sin ((p2 - p1) / 2))\<^sup>2 + cos p1 * cos p2 * (sin ((l2 - l1) / 2))\<^sup>2"
  have sq: "(sin (x / 2))\<^sup>2 = (1 - cos x) / 2" for x :: real
    using cos_double_sin [of "x / 2"] by simp
  have a_d: "a = (1 - d) / 2"
    unfolding a_def d_def sq by (simp add: cos_diff field_simps)
  have d: "- 1 \<le> d" "d \<le> 1"
    unfolding d_def by (rule inner_product_bounds)+
  have a: "0 \<le> a" "a \<le> 1" using d by (simp_all add: a_d)
  have inner: "centralAngle (lon1, lat1) (lon2, lat2) = arccos d"
    by (simp add: centralAngle_def unitVector_def Let_def d_def p1_def p2_def l1_def l2_def
          cos_diff algebra_simps)
  have hd: "toRad exactMath (lat2 - lat1) / 2 = (p2 - p1) / 2"
    "toRad exactMath (lon2 - lon1) / 2 = (l2 - l1) / 2"
    "toRad exactMath lat1 = p1" "toRad exactMath lat2 = p2"
    by (simp_all add: toRad_def exactMath_def p1_def p2_def l1_def l2_def field_simps)
  have "haversine exactMath lon1 lat1 (Some lon2) (Some lat2)
          = (if a < 0 \<or> 1 - a < 0 then None
             else Some (6371 * (2 * atan2 (sqrt a) (sqrt (1 - a)))))"
    using hd by (simp add: haversine_def Let_def a_def exactMath_def)
  also have "\<dots> = Some (6371 * (2 * arcsin (sqrt a)))"
    using a by (simp add: atan2_arcsin)
  also have "2 * arcsin (sqrt a) = arccos d"
    unfolding a_d using d by (rule half_angle)
  finally show ?thesis by (simp add: greatCircleKm_def inner)
qed

lemma isPoint_geometry:
  assumes "isPoint s"
  obtains c where "geometry s = Some (Point c)"
  using assms by (auto simp: isPoint_def split: option.splits geometry.splits)

lemma distanceTo_exact:
  assumes "isPoint s"
  shows "distanceTo exactMath point s = Some (greatCircleTo point s)"
proof -
  from assms obtain c where c: "geometry s = Some (Point c)" by (rule isPoint_geometry)
  show ?thesis
    using haversine_exact [of "fst point" "snd point" "lon c" "lat c"]
    by (simp add: distanceTo_def greatCircleTo_def c)
qed

lemma shelterLoop_fold:
  assumes "\<forall>s\<in>set shelters. nameOk s \<and> isPoint s"
  shows "shelterLoop m isWI point shelters (w, c) =
           Inr (if filter isWaterIslandShelter shelters = [] then w
                else Some (last (filter isWaterIslandShelter shelters)),
                foldl (closer m point) c
                  (filter (\<lambda>s. isWI \<or> \<not> isWaterIslandShelter s) shelters))"
  using assms
proof (induction shelters arbitrary: w c)
  case Nil
  show ?case by simp
next
  case (Cons s rest)
  from Cons.prems obtain name where name: "trimmedName (properties s ''Name'') = Inr name"
    by (auto simp: nameOk_def split: sum.splits)
  from Cons.prems have "isPoint s" by simp
  then obtain pos where pos: "geometry s = Some (Point pos)" by (rule isPoint_geometry)
  have rest: "\<forall>s\<in>set rest. nameOk s \<and> isPoint s" using Cons.prems by simp
  note IH = Cons.IH [OF rest]
  show ?case
  proof (cases "toUpperCase name = toUpperCase WATER_ISLAND_SHELTER_NAME")
    case True
    then have w: "isWaterIslandShelter s" by (simp add: isWaterIslandShelter_def name)
    show ?thesis
      using True w name pos IH
      by (cases isWI; cases c) (simp_all add: closer_def distanceTo_def Let_def)
  next
    case False
    then have w: "\<not> isWaterIslandShelter s" by (simp add: isWaterIslandShelter_def name)
    show ?thesis
      using False w name pos IH
      by (cases c) (simp_all add: closer_def distanceTo_def Let_def)
  qed
qed

lemma closest_fold:
  assumes "\<forall>s\<in>set cands. \<exists>d. distanceTo m point s = Some d"
  shows "(cands = [] \<and> foldl (closer m point) None cands = None) \<or>
         (\<exists>f d. foldl (closer m point) None cands = Some (f, Some d) \<and> f \<in> set cands \<and>
                 distanceTo m point f = Some d \<and>
                 (\<forall>g\<in>set cands. \<exists>d'. distanceTo m point g = Some d' \<and> d \<le> d'))"
  using assms
proof (induction cands rule: rev_induct)
  case Nil
  show ?case by simp
next
  case (snoc x xs)
  from snoc.prems obtain dx where dx: "distanceTo m point x = Some dx" by auto
  from snoc have IH: "(xs = [] \<and> foldl (closer m point) None xs = None) \<or>
         (\<exists>f d. foldl (closer m point) None xs = Some (f, Some d) \<and> f \<in> set xs \<and>
                 distanceTo m point f = Some d \<and>
                 (\<forall>g\<in>set xs. \<exists>d'. distanceTo m point g = Some d' \<and> d \<le> d'))"
    by simp
  then show ?case
  proof
    assume "xs = [] \<and> foldl (closer m point) None xs = None"
    then show ?thesis using dx by (simp add: closer_def)
  next
    assume "\<exists>f d. foldl (closer m point) None xs = Some (f, Some d) \<and> f \<in> set xs \<and>
                 distanceTo m point f = Some d \<and>
                 (\<forall>g\<in>set xs. \<exists>d'. distanceTo m point g = Some d' \<and> d \<le> d')"
    then obtain f d where fd: "foldl (closer m point) None xs = Some (f, Some d)" "f \<in> set xs"
      "distanceTo m point f = Some d"
      "\<forall>g\<in>set xs. \<exists>d'. distanceTo m point g = Some d' \<and> d \<le> d'"
      by blast
    show ?thesis
    proof (cases "dx < d")
      case True
      then have "foldl (closer m point) None (xs @ [x]) = Some (x, Some dx)"
        using fd(1) dx by (simp add: closer_def numLess_def)
      moreover have "\<forall>g\<in>set (xs @ [x]). \<exists>d'. distanceTo m point g = Some d' \<and> dx \<le> d'"
        using fd(4) True dx by fastforce
      ultimately show ?thesis using dx by auto
    next
      case False
      then have "foldl (closer m point) None (xs @ [x]) = Some (f, Some d)"
        using fd(1) dx by (simp add: closer_def numLess_def)
      moreover have "\<forall>g\<in>set (xs @ [x]). \<exists>d'. distanceTo m point g = Some d' \<and> d \<le> d'"
        using fd(4) False dx by fastforce
      ultimately show ?thesis using fd(2,3) by auto
    qed
  qed
qed

text \<open>
  On shelters that are Points with readable names, and in exact arithmetic, the resolver
  does what is claimed of it. When the parcel context does not match the legal-description
  predicate, the result is none if no shelter other than the designated one exists, and
  otherwise a shelter other than the designated one whose great-circle distance is least
  among those, with that distance. When the predicate matches and a shelter carries the
  designated name, the last such shelter is returned with its distance, whatever the other
  distances are.
\<close>

lemma nearest_point_shelter:
  assumes ok: "\<forall>s\<in>set shelters. nameOk s \<and> isPoint s"
  shows "(\<not> isWaterIslandParcel parcel \<longrightarrow>
            (if filter (\<lambda>s. \<not> isWaterIslandShelter s) shelters = []
             then findNearestShelter exactMath shelters point parcel = Inr None
             else \<exists>f. findNearestShelter exactMath shelters point parcel =
                         Inr (Some (f, Some (greatCircleTo point f))) \<and>
                      f \<in> set shelters \<and> \<not> isWaterIslandShelter f \<and>
                      (\<forall>g\<in>set shelters. \<not> isWaterIslandShelter g \<longrightarrow>
                          greatCircleTo point f \<le> greatCircleTo point g)))
    \<and> (isWaterIslandParcel parcel \<and> filter isWaterIslandShelter shelters \<noteq> [] \<longrightarrow>
          findNearestShelter exactMath shelters point parcel =
            Inr (Some (last (filter isWaterIslandShelter shelters),
                       Some (greatCircleTo point (last (filter isWaterIslandShelter shelters))))))"
proof -
  have dist: "distanceTo exactMath point s = Some (greatCircleTo point s)"
    if "s \<in> set shelters" for s
    using that ok by (intro distanceTo_exact) auto
  note loop = shelterLoop_fold [OF ok, of exactMath "isWaterIslandParcel parcel" point None None]
  have a: "\<not> isWaterIslandParcel parcel \<longrightarrow>
            (if filter (\<lambda>s. \<not> isWaterIslandShelter s) shelters = []
             then findNearestShelter exactMath shelters point parcel = Inr None
             else \<exists>f. findNearestShelter exactMath shelters point parcel =
                         Inr (Some (f, Some (greatCircleTo point f))) \<and>
                      f \<in> set shelters \<and> \<not> isWaterIslandShelter f \<and>
                      (\<forall>g\<in>set shelters. \<not> isWaterIslandShelter g \<longrightarrow>
                          greatCircleTo point f \<le> greatCircleTo point g))"
  proof
    assume nwi: "\<not> isWaterIslandParcel parcel"
    define cands where "cands = filter (\<lambda>s. \<not> isWaterIslandShelter s) shelters"
    have cd: "\<forall>s\<in>set cands. \<exists>d. distanceTo exactMath point s = Some d"
      using dist by (auto simp: cands_def)
    have res: "findNearestShelter exactMath shelters point parcel =
                 (if foldl (closer exactMath point) None cands = None then Inr None
                  else Inr (foldl (closer exactMath point) None cands))"
      using nwi loop
      by (cases shelters) (auto simp: findNearestShelter_def cands_def split: option.splits)
    from closest_fold [OF cd] show "if filter (\<lambda>s. \<not> isWaterIslandShelter s) shelters = []
             then findNearestShelter exactMath shelters point parcel = Inr None
             else \<exists>f. findNearestShelter exactMath shelters point parcel =
                         Inr (Some (f, Some (greatCircleTo point f))) \<and>
                      f \<in> set shelters \<and> \<not> isWaterIslandShelter f \<and>
                      (\<forall>g\<in>set shelters. \<not> isWaterIslandShelter g \<longrightarrow>
                          greatCircleTo point f \<le> greatCircleTo point g)"
    proof
      assume "cands = [] \<and> foldl (closer exactMath point) None cands = None"
      then show ?thesis using res by (simp add: cands_def)
    next
      assume "\<exists>f d. foldl (closer exactMath point) None cands = Some (f, Some d) \<and>
                 f \<in> set cands \<and> distanceTo exactMath point f = Some d \<and>
                 (\<forall>g\<in>set cands. \<exists>d'. distanceTo exactMath point g = Some d' \<and> d \<le> d')"
      then obtain f d where fd: "foldl (closer exactMath point) None cands = Some (f, Some d)"
        "f \<in> set cands" "distanceTo exactMath point f = Some d"
        "\<forall>g\<in>set cands. \<exists>d'. distanceTo exactMath point g = Some d' \<and> d \<le> d'"
        by blast
      from fd(2) have fs: "f \<in> set shelters" "\<not> isWaterIslandShelter f"
        by (auto simp: cands_def)
      from fd(3) dist [OF fs(1)] have d: "d = greatCircleTo point f" by simp
      have min: "greatCircleTo point f \<le> greatCircleTo point g"
        if "g \<in> set shelters" "\<not> isWaterIslandShelter g" for g
      proof -
        from that have "g \<in> set cands" by (simp add: cands_def)
        with fd(4) obtain d' where "distanceTo exactMath point g = Some d'" "d \<le> d'" by blast
        with dist [OF that(1)] d show ?thesis by simp
      qed
      have ne: "filter (\<lambda>s. \<not> isWaterIslandShelter s) shelters \<noteq> []"
        using fd(2) unfolding cands_def by (metis empty_iff list.set(1))
      have "findNearestShelter exactMath shelters point parcel
              = Inr (Some (f, Some (greatCircleTo point f)))"
        using res fd(1) d by simp
      with fs min ne show ?thesis by (simp only: if_False) blast
    qed
  qed
  have b: "isWaterIslandParcel parcel \<and> filter isWaterIslandShelter shelters \<noteq> [] \<longrightarrow>
          findNearestShelter exactMath shelters point parcel =
            Inr (Some (last (filter isWaterIslandShelter shelters),
                       Some (greatCircleTo point (last (filter isWaterIslandShelter shelters)))))"
  proof
    assume wi: "isWaterIslandParcel parcel \<and> filter isWaterIslandShelter shelters \<noteq> []"
    define w where "w = last (filter isWaterIslandShelter shelters)"
    have "w \<in> set (filter isWaterIslandShelter shelters)"
      unfolding w_def using wi by (intro last_in_set) simp
    then have ws: "w \<in> set shelters" by simp
    with ok have "isPoint w" by simp
    then obtain c where c: "geometry w = Some (Point c)" by (rule isPoint_geometry)
    from dist [OF ws] have
      "haversine exactMath (fst point) (snd point) (Some (lon c)) (Some (lat c))
         = Some (greatCircleTo point w)"
      by (simp add: distanceTo_def c)
    moreover have "shelters \<noteq> []" using wi by auto
    ultimately show "findNearestShelter exactMath shelters point parcel =
            Inr (Some (last (filter isWaterIslandShelter shelters),
                       Some (greatCircleTo point (last (filter isWaterIslandShelter shelters)))))"
      using wi loop c by (simp add: findNearestShelter_def w_def [symmetric])
  qed
  from a b show ?thesis by blast
qed

lemma great_circle_examples:
  "greatCircleKm (0, 0) (0, 0) = 0"
  "greatCircleKm (0, 0) (0, 90) = 6371 * pi / 2"
  "greatCircleKm (0, 0) (90, 0) = 6371 * pi / 2"
  "greatCircleKm (0, 0) (180, 0) = 6371 * pi"
  by (simp_all add: greatCircleKm_def centralAngle_def unitVector_def)

text \<open>Three Point shelters on the equator: the designated one at the query point, one a
  quarter of the way round the globe and one half of the way round. For a parcel context
  that does not match, the nearest of the last two is returned, a quarter of the
  circumference away; for one that matches, the designated shelter, at distance 0.\<close>

lemma nearest_shelter_examples:
  "findNearestShelter exactMath
     [\<lparr>geometry = Some (Point (Pos 0 0 [])),
       properties = [''Name'' \<mapsto> JStr ''  water island Station ''], bounds = None\<rparr>,
      \<lparr>geometry = Some (Point (Pos 180 0 [])),
       properties = [''Name'' \<mapsto> JStr ''Harbor Hall''], bounds = None\<rparr>,
      \<lparr>geometry = Some (Point (Pos 90 0 [])),
       properties = [''Name'' \<mapsto> JStr ''Gym''], bounds = None\<rparr>]
     (0, 0) (None :: feature option)
   = Inr (Some (\<lparr>geometry = Some (Point (Pos 90 0 [])),
                  properties = [''Name'' \<mapsto> JStr ''Gym''], bounds = None\<rparr>,
                Some (6371 * pi / 2)))"
  "findNearestShelter exactMath
     [\<lparr>geometry = Some (Point (Pos 0 0 [])),
       properties = [''Name'' \<mapsto> JStr ''  water island Station ''], bounds = None\<rparr>,
      \<lparr>geometry = Some (Point (Pos 180 0 [])),
       properties = [''Name'' \<mapsto> JStr ''Harbor Hall''], bounds = None\<rparr>,
      \<lparr>geometry = Some (Point (Pos 90 0 [])),
       properties = [''Name'' \<mapsto> JStr ''Gym''], bounds = None\<rparr>]
     (90, 0)
     (Some \<lparr>geometry = None, properties = [''Tax_Legal_'' \<mapsto> JStr ''Lot 5 Water Island''],
            bounds = None\<rparr>)
   = Inr (Some (\<lparr>geometry = Some (Point (Pos 0 0 [])),
                  properties = [''Name'' \<mapsto> JStr ''  water island Station ''],
                  bounds = None\<rparr>,
                Some (6371 * pi / 2)))"
  by (simp_all add: findNearestShelter_def isWaterIslandParcel_def trimmedName_def trim_def
        isSpace_def toUpperCase_def upperChar_def WATER_ISLAND_SHELTER_NAME_def
        WATER_ISLAND_TOKEN_def haversine_exact numLess_def greatCircleKm_def centralAngle_def
        unitVector_def)

subsection \<open>The bounding-box pre-filter\<close>
























subsection \<open>The percentile ranker\<close>

lemma sorted_filter_less:
  fixes xs :: "real list"
  shows "sorted xs \<Longrightarrow> filter (\<lambda>s. s < v) xs = takeWhile (\<lambda>s. s < v) xs"
proof (induction xs)
  case Nil
  show ?case by simp
next
  case (Cons x xs)
  show ?case
  proof (cases "x < v")
    case True
    with Cons show ?thesis by simp
  next
    case False
    with Cons.prems have "\<forall>y\<in>set xs. \<not> y < v" by auto
    then have "filter (\<lambda>s. s < v) xs = []" by (simp add: filter_empty_conv)
    with False show ?thesis by simp
  qed
qed

lemma sorted_filter_le:
  fixes xs :: "real list"
  shows "sorted xs \<Longrightarrow> filter (\<lambda>s. s \<le> v) xs = takeWhile (\<lambda>s. s \<le> v) xs"
proof (induction xs)
  case Nil
  show ?case by simp
next
  case (Cons x xs)
  show ?case
  proof (cases "x \<le> v")
    case True
    with Cons show ?thesis by simp
  next
    case False
    with Cons.prems have "\<forall>y\<in>set xs. \<not> y \<le> v" by auto
    then have "filter (\<lambda>s. s \<le> v) xs = []" by (simp add: filter_empty_conv)
    with False show ?thesis by simp
  qed
qed

lemma takeWhile_index:
  assumes "i < length xs"
  shows "(i < length (takeWhile P xs)) \<Longrightarrow> P (xs ! i)"
  by (metis nth_mem set_takeWhileD takeWhile_nth)

lemma sorted_less_index:
  fixes xs :: "real list"
  assumes "sorted xs" "i < length xs"
  shows "(xs ! i < v) = (i < length (filter (\<lambda>s. s < v) xs))"
proof -
  let ?L = "length (takeWhile (\<lambda>s. s < v) xs)"
  have eq: "filter (\<lambda>s. s < v) xs = takeWhile (\<lambda>s. s < v) xs"
    using assms(1) by (rule sorted_filter_less)
  show ?thesis
  proof (cases "i < ?L")
    case True
    then have "xs ! i < v" using takeWhile_index [OF assms(2), of "\<lambda>s. s < v"] by simp
    with True show ?thesis by (simp add: eq)
  next
    case False
    then have L: "?L < length xs" "?L \<le> i" using assms(2) by auto
    have "\<not> xs ! ?L < v" using L(1) by (rule nth_length_takeWhile)
    moreover have "xs ! ?L \<le> xs ! i" using assms L by (simp add: sorted_nth_mono)
    ultimately have "\<not> xs ! i < v" by simp
    with False show ?thesis by (simp add: eq)
  qed
qed

lemma sorted_le_index:
  fixes xs :: "real list"
  assumes "sorted xs" "i < length xs"
  shows "(xs ! i \<le> v) = (i < length (filter (\<lambda>s. s \<le> v) xs))"
proof -
  let ?L = "length (takeWhile (\<lambda>s. s \<le> v) xs)"
  have eq: "filter (\<lambda>s. s \<le> v) xs = takeWhile (\<lambda>s. s \<le> v) xs"
    using assms(1) by (rule sorted_filter_le)
  show ?thesis
  proof (cases "i < ?L")
    case True
    then have "xs ! i \<le> v" using takeWhile_index [OF assms(2), of "\<lambda>s. s \<le> v"] by simp
    with True show ?thesis by (simp add: eq)
  next
    case False
    then have L: "?L < length xs" "?L \<le> i" using assms(2) by auto
    have "\<not> xs ! ?L \<le> v" using L(1) by (rule nth_length_takeWhile)
    moreover have "xs ! ?L \<le> xs ! i" using assms L by (simp add: sorted_nth_mono)
    ultimately have "\<not> xs ! i \<le> v" by simp
    with False show ?thesis by (simp add: eq)
  qed
qed


lemma elemAt_nth: "0 \<le> i \<Longrightarrow> i < int (length xs) \<Longrightarrow> elemAt xs i = Some (xs ! nat i)"
  by (simp add: elemAt_def)

lemma lowLoop_count:
  assumes "sorted xs" "0 \<le> low" "high < int (length xs)"
    and "low \<le> int (length (filter (\<lambda>s. s < v) xs))"
    and "int (length (filter (\<lambda>s. s < v) xs)) \<le> high + 1"
  shows "lowLoop xs v low high = int (length (filter (\<lambda>s. s < v) xs))"
  using assms
proof (induction xs v low high rule: lowLoop.induct)
  case (1 sortedVs v low high)
  let ?L = "int (length (filter (\<lambda>s. s < v) sortedVs))"
  show ?case
  proof (cases "low \<le> high")
    case False
    then have "lowLoop sortedVs v low high = low"
      by (subst lowLoop.simps) simp
    with False "1.prems" show ?thesis by simp
  next
    case True
    define mid where "mid = (low + high) div 2"
    have mid: "low \<le> mid" "mid \<le> high" using True by (auto simp: mid_def)
    then have mr: "0 \<le> mid" "mid < int (length sortedVs)" using "1.prems" by auto
    have at: "elemAt sortedVs mid = Some (sortedVs ! nat mid)" using mr by (rule elemAt_nth)
    have idx: "(sortedVs ! nat mid < v) = (nat mid < length (filter (\<lambda>s. s < v) sortedVs))"
      using "1.prems"(1) mr by (intro sorted_less_index) auto
    show ?thesis
    proof (cases "sortedVs ! nat mid < v")
      case lt: True
      have r: "lowLoop sortedVs v low high = lowLoop sortedVs v (mid + 1) high"
        using True lt at by (subst lowLoop.simps) (simp add: mid_def Let_def)
      have "mid + 1 \<le> ?L" using lt idx mr by linarith
      then have "lowLoop sortedVs v (mid + 1) high = ?L"
        using True lt at "1.prems" mr
        by (intro "1.IH"(1) [OF True mid_def]) auto
      with r show ?thesis by simp
    next
      case ge: False
      have r: "lowLoop sortedVs v low high = lowLoop sortedVs v low (mid - 1)"
        using True ge at by (subst lowLoop.simps) (simp add: mid_def Let_def)
      have "?L \<le> mid" using ge idx mr by linarith
      then have "lowLoop sortedVs v low (mid - 1) = ?L"
        using True ge at "1.prems" mr
        by (intro "1.IH"(2) [OF True mid_def]) auto
      with r show ?thesis by simp
    qed
  qed
qed


lemma firstLoop_stays:
  assumes "elemAt xs (k - 1) \<noteq> Some v"
  shows "firstLoop xs v k = k"
  using assms by (subst firstLoop.simps) simp

lemma lastLoop_run:
  fixes xs :: "real list"
  assumes "sorted xs"
    and "int (length (filter (\<lambda>s. s < v) xs)) \<le> k"
    and "k < int (length (filter (\<lambda>s. s \<le> v) xs))"
  shows "lastLoop xs v k = int (length (filter (\<lambda>s. s \<le> v) xs)) - 1"
  using assms
proof (induction xs v k rule: lastLoop.induct)
  case (1 sortedVs v lastEqual)
  let ?L = "int (length (filter (\<lambda>s. s < v) sortedVs))"
  let ?M = "int (length (filter (\<lambda>s. s \<le> v) sortedVs))"
  have k0: "0 \<le> lastEqual" using "1.prems" by linarith
  show ?case
  proof (cases "lastEqual + 1 < ?M")
    case True
    have "length (filter (\<lambda>s. s \<le> v) sortedVs) \<le> length sortedVs"
      by (rule length_filter_le)
    with True have rng: "0 \<le> lastEqual + 1" "lastEqual + 1 < int (length sortedVs)"
      using k0 by linarith+
    have n: "nat (lastEqual + 1) < length sortedVs" using rng by linarith
    have le: "sortedVs ! nat (lastEqual + 1) \<le> v"
      using sorted_le_index [OF "1.prems"(1) n, of v] True rng by simp
    have nl: "\<not> sortedVs ! nat (lastEqual + 1) < v"
      using sorted_less_index [OF "1.prems"(1) n, of v] "1.prems"(2) rng by simp
    have eq: "elemAt sortedVs (lastEqual + 1) = Some v"
      using le nl rng by (simp add: elemAt_nth)
    have "lastLoop sortedVs v lastEqual = lastLoop sortedVs v (lastEqual + 1)"
      using eq rng by (subst lastLoop.simps) simp
    also have "\<dots> = ?M - 1"
      using eq rng "1.prems" True by (intro "1.IH") auto
    finally show ?thesis .
  next
    case False
    then have kM: "lastEqual + 1 = ?M" using "1.prems" by linarith
    have "\<not> (lastEqual + 1 < int (length sortedVs) \<and> elemAt sortedVs (lastEqual + 1) = Some v)"
    proof
      assume h: "lastEqual + 1 < int (length sortedVs) \<and> elemAt sortedVs (lastEqual + 1) = Some v"
      then have n: "nat (lastEqual + 1) < length sortedVs" using k0 by linarith
      from h k0 have "sortedVs ! nat (lastEqual + 1) = v"
        by (auto simp: elemAt_def split: if_splits)
      then have "sortedVs ! nat (lastEqual + 1) \<le> v" by simp
      then have "nat (lastEqual + 1) < length (filter (\<lambda>s. s \<le> v) sortedVs)"
        using sorted_le_index [OF "1.prems"(1) n, of v] by simp
      with kM k0 show False by linarith
    qed
    then have "lastLoop sortedVs v lastEqual = lastEqual"
      by (subst lastLoop.simps) (rule if_not_P)
    with kM show ?thesis by linarith
  qed
qed

lemma sum_upt_real:
  "L \<le> M \<Longrightarrow> 2 * sum_list (map real [L..<M]) = (real M - real L) * (real L + real M - 1)"
proof (induction M)
  case 0
  then show ?case by simp
next
  case (Suc M)
  show ?case
  proof (cases "L \<le> M")
    case True
    with Suc.IH have "2 * sum_list (map real [L..<M]) = (real M - real L) * (real L + real M - 1)"
      by simp
    then show ?thesis using True by (simp add: algebra_simps)
  next
    case False
    with Suc.prems have "L = Suc M" by simp
    then show ?thesis by simp
  qed
qed

lemma filter_upt_range:
  assumes "M \<le> n" "\<And>i. i < n \<Longrightarrow> P i = (L \<le> i \<and> i < M)"
  shows "filter P [0..<n] = [L..<M]"
proof (rule sorted_distinct_set_unique)
  show "sorted (filter P [0..<n])" by (intro sorted_wrt_filter) simp
  show "distinct (filter P [0..<n])" by simp
  show "sorted [L..<M]" by simp
  show "distinct [L..<M]" by simp
  show "set (filter P [0..<n]) = set [L..<M]" using assms by auto
qed

lemma matchingIndices_range:
  fixes xs :: "real list"
  assumes "sorted xs"
  shows "matchingIndices xs v =
           [length (filter (\<lambda>s. s < v) xs)..<length (filter (\<lambda>s. s \<le> v) xs)]"
  unfolding matchingIndices_def
proof (rule filter_upt_range)
  show "length (filter (\<lambda>s. s \<le> v) xs) \<le> length xs" by simp
  fix i assume i: "i < length xs"
  have "(xs ! i = v) = (xs ! i \<le> v \<and> \<not> xs ! i < v)" by auto
  then show "(xs ! i = v) =
      (length (filter (\<lambda>s. s < v) xs) \<le> i \<and> i < length (filter (\<lambda>s. s \<le> v) xs))"
    using sorted_le_index [OF assms i, of v] sorted_less_index [OF assms i, of v] by auto
qed

lemma count_less_le:
  fixes xs :: "real list"
  shows "length (filter (\<lambda>s. s < v) xs) \<le> length (filter (\<lambda>s. s \<le> v) xs)"
proof -
  have "filter (\<lambda>s. s < v) xs = filter (\<lambda>s. s < v) (filter (\<lambda>s. s \<le> v) xs)"
    by (simp add: conj_commute less_le_not_le)  
  then show ?thesis by (metis length_filter_le)
qed

lemma meanIndex_sorted:
  fixes xs :: "real list"
  assumes "sorted xs" "v \<in> set xs"
  shows "meanIndex xs v =
           (real (length (filter (\<lambda>s. s < v) xs)) + (real (length (filter (\<lambda>s. s \<le> v) xs)) - 1)) / 2"
proof -
  let ?L = "length (filter (\<lambda>s. s < v) xs)"
  let ?M = "length (filter (\<lambda>s. s \<le> v) xs)"
  from assms(2) obtain i where i: "i < length xs" "xs ! i = v" by (auto simp: in_set_conv_nth)
  then have "?L \<le> i" "i < ?M"
    using sorted_le_index [OF assms(1) i(1), of v] sorted_less_index [OF assms(1) i(1), of v]
    by auto
  then have LM: "?L < ?M" by simp
  have s: "2 * sum_list (map real [?L..<?M]) = (real ?M - real ?L) * (real ?L + real ?M - 1)"
    using LM by (intro sum_upt_real) simp
  have pos: "real ?M - real ?L > 0" using LM by simp
  have "meanIndex xs v = sum_list (map real [?L..<?M]) / (real ?M - real ?L)"
    using LM by (simp add: meanIndex_def matchingIndices_range [OF assms(1)] of_nat_diff)
  also have "\<dots> = (real ?L + real ?M - 1) / 2"
    using s pos by (simp add: field_simps)
  finally show ?thesis by simp
qed


lemma generalRank_middle:
  fixes xs :: "real list"
  assumes srt: "sorted xs" and len: "2 \<le> length xs"
    and lo: "xs ! 0 < v" and hi: "v < xs ! (length xs - 1)"
  shows "xs ! (length (filter (\<lambda>s. s < v) xs) - 1) < v"
    and "v \<le> xs ! length (filter (\<lambda>s. s < v) xs)"
    and "v \<in> set xs \<Longrightarrow> generalRank xs v = Fin (meanIndex xs v / (real (length xs) - 1))"
    and "v \<notin> set xs \<Longrightarrow> generalRank xs v = Fin (interpolatedIndex xs v / (real (length xs) - 1))"
proof -
  define n where "n = length xs"
  define L where "L = length (filter (\<lambda>s. s < v) xs)"
  define M where "M = length (filter (\<lambda>s. s \<le> v) xs)"
  have n2: "2 \<le> n" using len by (simp add: n_def)
  have idxL: "(xs ! i < v) = (i < L)" if "i < n" for i
    using sorted_less_index [OF srt, of i v] that by (simp add: n_def L_def)
  have idxM: "(xs ! i \<le> v) = (i < M)" if "i < n" for i
    using sorted_le_index [OF srt, of i v] that by (simp add: n_def M_def)
  have L1: "1 \<le> L" using idxL [of 0] lo n2 by simp
  have Ln: "L \<le> n - 1"
  proof -
    have "n - 1 < n" using n2 by simp
    from idxL [OF this] hi have "\<not> n - 1 < L" by (simp add: n_def)
    then show ?thesis by simp
  qed
  have LM: "L \<le> M" unfolding L_def M_def by (rule count_less_le)
  have Lltn: "L < n" and Lm1: "L - 1 < n" and Lm1L: "L - 1 < L" using Ln L1 n2 by linarith+
  have prev: "xs ! (L - 1) < v" using idxL [OF Lm1] Lm1L by simp
  have nxt: "v \<le> xs ! L" using idxL [OF Lltn] by simp
  show "xs ! (length (filter (\<lambda>s. s < v) xs) - 1) < v" using prev by (simp add: L_def)
  show "v \<le> xs ! length (filter (\<lambda>s. s < v) xs)" using nxt by (simp add: L_def)
  have low: "lowLoop xs v 0 (int (length xs) - 1) = int L"
    unfolding L_def using srt Ln L1 n2
    by (intro lowLoop_count) (auto simp: n_def L_def)
  have natL: "nat (int L - 1) = L - 1" using L1 by simp
  have atprev: "elemAt xs (int L - 1) = Some (xs ! (L - 1))"
    using L1 Lltn natL by (simp add: elemAt_def n_def)
  have "elemAt xs (int L - 1) \<noteq> Some v" using atprev prev by simp
  then have "firstLoop xs v (int L) = int L" by (rule firstLoop_stays)
  then have first: "firstLoop xs v (max 0 (int L)) = int L" by simp
  have atL: "elemAt xs (int L) = Some (xs ! L)"
    using Lltn by (simp add: elemAt_def n_def)
  have lastIndex: "real_of_int (int (length xs) - 1) = real (length xs) - 1"
    using n2 by (simp add: n_def)
  have nlo: "\<not> v \<le> xs ! 0" and nhi: "\<not> xs ! nat (int (length xs) - 1) \<le> v"
    using lo hi n2 by (simp_all add: n_def nat_diff_distrib)
  show "generalRank xs v = Fin (meanIndex xs v / (real (length xs) - 1))" if mem: "v \<in> set xs"
  proof -
    from mem obtain i where i: "i < n" "xs ! i = v" by (auto simp: in_set_conv_nth n_def)
    then have "L \<le> i" "i < M" using idxL [of i] idxM [of i] by auto
    then have LltM: "L < M" by simp
    have "M \<le> n" unfolding M_def n_def by (rule length_filter_le)
    then have "xs ! L \<le> v" using idxM [OF Lltn] LltM by simp
    with nxt have eqL: "xs ! L = v" by simp
    have last: "lastLoop xs v (int L) = int M - 1"
      unfolding M_def using srt LltM
      by (intro lastLoop_run) (auto simp: L_def M_def)
    have mean: "meanIndex xs v = (real L + (real M - 1)) / 2"
      unfolding L_def M_def using srt mem by (rule meanIndex_sorted)
    have "real_of_int (int M - 1) = real M - 1" using LltM by simp
    then have "generalRank xs v = Fin (((real L + (real M - 1)) / 2) / (real (length xs) - 1))"
      using nlo nhi low first last atL eqL lastIndex
      by (simp add: generalRank_def Let_def)
    then show ?thesis by (simp only: mean)
  qed
  show "generalRank xs v = Fin (interpolatedIndex xs v / (real (length xs) - 1))" if nmem: "v \<notin> set xs"
  proof -
    have "xs ! L \<in> set xs" using Lltn by (simp add: n_def)
    with nmem have neL: "xs ! L \<noteq> v" by auto
    with nxt prev have span: "xs ! L - xs ! (L - 1) \<noteq> 0" by simp
    have interp: "interpolatedIndex xs v = real L - 1 + (v - xs ! (L - 1)) / (xs ! L - xs ! (L - 1))"
      by (simp add: interpolatedIndex_def L_def Let_def)
    have "generalRank xs v =
            Fin ((real L - 1 + (v - xs ! (L - 1)) / (xs ! L - xs ! (L - 1))) / (real (length xs) - 1))"
      using nlo nhi low first atL atprev neL span lastIndex
      by (simp add: generalRank_def Let_def)
    then show ?thesis by (simp only: interp)
  qed
qed

lemma finiteSorted_props:
  "sorted (finiteSorted values)" "set (finiteSorted values) = {r. Fin r \<in> set values}"
proof -
  show "sorted (finiteSorted values)" by (simp add: finiteSorted_def)
  show "set (finiteSorted values) = {r. Fin r \<in> set values}"
    by (auto simp: finiteSorted_def split: number.splits)
qed

lemma sorted_two_distinct:
  fixes xs :: "real list"
  assumes "sorted xs" "a \<in> set xs" "b \<in> set xs" "a \<noteq> b"
  shows "2 \<le> length xs" and "xs ! 0 < xs ! (length xs - 1)"
proof -
  from assms(2,3) obtain i j where ij: "i < length xs" "xs ! i = a" "j < length xs" "xs ! j = b"
    by (auto simp: in_set_conv_nth)
  with assms(4) have "i \<noteq> j" by auto
  with ij show "2 \<le> length xs" by linarith
  have "xs ! 0 \<le> xs ! i" "xs ! 0 \<le> xs ! j" "xs ! i \<le> xs ! (length xs - 1)"
    "xs ! j \<le> xs ! (length xs - 1)"
    using assms(1) ij by (auto intro!: sorted_nth_mono)
  with ij assms(4) show "xs ! 0 < xs ! (length xs - 1)" by linarith
qed


lemma ranker_unfold:
  "createPercentileRanker values (Fin v) =
     (if length (finiteSorted values) = 0 then None
      else if length (finiteSorted values) = 1 then Some (Fin 0.5)
      else if finiteSorted values ! 0 = finiteSorted values ! (length (finiteSorted values) - 1)
        then Some (Fin 0.5)
      else Some (generalRank (finiteSorted values) v))"
  by (simp add: createPercentileRanker_def Let_def)

lemma finiteSorted_examples:
  "finiteSorted [Fin 10, Fin 20, Fin 20, Fin 30] = [10, 20, 20, 30]"
  "finiteSorted [Fin 10, Fin 10, Fin 20, Fin 30] = [10, 10, 20, 30]"
  "finiteSorted [Fin 30, NonFinite, Fin 10, Fin 20, Fin 40] = [10, 20, 30, 40]"
  by (simp_all add: finiteSorted_def)

lemma ranker_examples:
  "createPercentileRanker (map Fin [10, 20, 20, 30]) (Fin 10) = Some (Fin 0)"
  "createPercentileRanker (map Fin [10, 20, 20, 30]) (Fin 30) = Some (Fin 1)"
  "createPercentileRanker (map Fin [10, 20, 20, 30]) (Fin 20) = Some (Fin 0.5)"
  "createPercentileRanker (map Fin [10, 20, 20, 30]) (Fin 25) = Some (Fin (2.5 / 3))"
  by (simp_all add: ranker_unfold finiteSorted_examples generalRank_def elemAt_def Let_def
        lowLoop.simps firstLoop.simps lastLoop.simps)

lemma ranker_general_case:
  assumes "Fin a \<in> set values" "Fin b \<in> set values" "a \<noteq> b"
  shows "createPercentileRanker values (Fin v) = Some (generalRank (finiteSorted values) v)"
proof -
  have ab: "a \<in> set (finiteSorted values)" "b \<in> set (finiteSorted values)"
    using assms by (simp_all add: finiteSorted_props)
  note two = sorted_two_distinct [OF finiteSorted_props(1) ab assms(3)]
  then have "length (finiteSorted values) \<noteq> 0" "length (finiteSorted values) \<noteq> 1"
    "finiteSorted values ! 0 \<noteq> finiteSorted values ! (length (finiteSorted values) - 1)"
    by auto
  then show ?thesis by (simp add: createPercentileRanker_def Let_def)
qed

text \<open>
  Claim C4, as amended. For a distribution with at least two distinct finite values, sorted
  ascending as \<open>xs\<close> with \<open>n\<close> entries, the ranker gives: 0 for a value at or below the
  minimum; 1 for a value at or above the maximum; for a value strictly between them that
  equals stored values, the mean position of all its occurrences divided by \<open>n - 1\<close>; for a
  value strictly between two adjacent stored values, the interpolated index divided by
  \<open>n - 1\<close>. So the ranker agrees with the rules as the specification states them at every
  value other than the minimum. For [10, 20, 20, 30]: rank(10) = 0, rank(30) = 1,
  rank(20) = 0.5 and rank(25) = 2.5/3.
\<close>

theorem percentile_rank_rules:
  assumes "Fin a \<in> set values" "Fin b \<in> set values" "a \<noteq> b"
  shows "sorted (finiteSorted values)
    \<and> (v \<le> finiteSorted values ! 0 \<longrightarrow> createPercentileRanker values (Fin v) = Some (Fin 0))
    \<and> (v \<ge> finiteSorted values ! (length (finiteSorted values) - 1) \<longrightarrow>
          createPercentileRanker values (Fin v) = Some (Fin 1))
    \<and> (finiteSorted values ! 0 < v \<and> v < finiteSorted values ! (length (finiteSorted values) - 1) \<and>
        v \<in> set (finiteSorted values) \<longrightarrow>
          createPercentileRanker values (Fin v) =
            Some (Fin (meanIndex (finiteSorted values) v / (real (length (finiteSorted values)) - 1))))
    \<and> (finiteSorted values ! 0 < v \<and> v < finiteSorted values ! (length (finiteSorted values) - 1) \<and>
        v \<notin> set (finiteSorted values) \<longrightarrow>
          finiteSorted values ! (length (filter (\<lambda>s. s < v) (finiteSorted values)) - 1) < v \<and>
          v < finiteSorted values ! length (filter (\<lambda>s. s < v) (finiteSorted values)) \<and>
          createPercentileRanker values (Fin v) =
            Some (Fin (interpolatedIndex (finiteSorted values) v /
                         (real (length (finiteSorted values)) - 1))))
    \<and> (v \<noteq> finiteSorted values ! 0 \<longrightarrow>
          createPercentileRanker values (Fin v) = Some (Fin (specGeneralRank (finiteSorted values) v)))
    \<and> createPercentileRanker (map Fin [10, 20, 20, 30]) (Fin 10) = Some (Fin 0)
    \<and> createPercentileRanker (map Fin [10, 20, 20, 30]) (Fin 30) = Some (Fin 1)
    \<and> createPercentileRanker (map Fin [10, 20, 20, 30]) (Fin 20) = Some (Fin 0.5)
    \<and> createPercentileRanker (map Fin [10, 20, 20, 30]) (Fin 25) = Some (Fin (2.5 / 3))"
proof -
  define xs where "xs = finiteSorted values"
  define R where "R = createPercentileRanker values (Fin v)"
  have srt: "sorted xs" unfolding xs_def by (rule finiteSorted_props)
  have ab: "a \<in> set xs" "b \<in> set xs"
    using assms by (simp_all add: finiteSorted_props xs_def)
  note two = sorted_two_distinct [OF srt ab assms(3)]
  have R: "R = Some (generalRank xs v)"
    unfolding xs_def R_def using assms by (rule ranker_general_case)
  have nat1: "nat (int (length xs) - 1) = length xs - 1" using two(1) by simp
  have r0: "v \<le> xs ! 0 \<longrightarrow> R = Some (Fin 0)"
    by (simp add: R generalRank_def)
  have r1: "v \<ge> xs ! (length xs - 1) \<longrightarrow> R = Some (Fin 1)"
  proof
    assume h: "v \<ge> xs ! (length xs - 1)"
    with two(2) have "\<not> v \<le> xs ! 0" by simp
    with h nat1 show "R = Some (Fin 1)" by (simp add: R generalRank_def Let_def)
  qed
  note mid = generalRank_middle [OF srt two(1), of v]
  have rm: "xs ! 0 < v \<and> v < xs ! (length xs - 1) \<and> v \<in> set xs \<longrightarrow>
              R = Some (Fin (meanIndex xs v / (real (length xs) - 1)))"
    using mid(3) by (simp add: R)
  have ri: "xs ! 0 < v \<and> v < xs ! (length xs - 1) \<and> v \<notin> set xs \<longrightarrow>
            xs ! (length (filter (\<lambda>s. s < v) xs) - 1) < v \<and>
            v < xs ! length (filter (\<lambda>s. s < v) xs) \<and>
            R = Some (Fin (interpolatedIndex xs v / (real (length xs) - 1)))"
  proof
    assume h': "xs ! 0 < v \<and> v < xs ! (length xs - 1) \<and> v \<notin> set xs"
    then have h: "xs ! 0 < v" "v < xs ! (length xs - 1)" "v \<notin> set xs" by auto
    have L: "length (filter (\<lambda>s. s < v) xs) < length xs"
    proof -
      have "length xs - 1 < length xs" using two(1) by simp
      from sorted_less_index [OF srt this, of v] h(2)
      have "\<not> length xs - 1 < length (filter (\<lambda>s. s < v) xs)" by simp
      then show ?thesis using two(1) by linarith
    qed
    then have "xs ! length (filter (\<lambda>s. s < v) xs) \<in> set xs" by simp
    with h(3) have "xs ! length (filter (\<lambda>s. s < v) xs) \<noteq> v" by auto
    with mid(2) [OF h(1,2)] have "v < xs ! length (filter (\<lambda>s. s < v) xs)" by simp
    with mid(1) [OF h(1,2)] mid(4) [OF h]
    show "xs ! (length (filter (\<lambda>s. s < v) xs) - 1) < v \<and>
            v < xs ! length (filter (\<lambda>s. s < v) xs) \<and>
            R = Some (Fin (interpolatedIndex xs v / (real (length xs) - 1)))"
      by (simp add: R)
  qed
  have rs: "v \<noteq> xs ! 0 \<longrightarrow> R = Some (Fin (specGeneralRank xs v))"
  proof
    assume ne: "v \<noteq> xs ! 0"
    show "R = Some (Fin (specGeneralRank xs v))"
    proof (cases "v < xs ! 0")
      case True
      then show ?thesis using r0 by (simp add: specGeneralRank_def)
    next
      case False
      with ne have lo: "xs ! 0 < v" by simp
      show ?thesis
      proof (cases "v \<ge> xs ! (length xs - 1)")
        case True
        with lo r1 show ?thesis by (simp add: specGeneralRank_def)
      next
        case False
        then have hi: "v < xs ! (length xs - 1)" by simp
        show ?thesis
          using lo hi rm ri by (cases "v \<in> set xs") (simp_all add: specGeneralRank_def)
      qed
    qed
  qed
  note ex = ranker_examples
  show ?thesis
    unfolding xs_def [symmetric] R_def [symmetric]
    by (intro conjI) (fact srt r0 r1 rm ri rs ex)+
qed

lemma spec_rank_examples:
  "meanIndex [10, 20, 30, 40] 20 = 1"
  "interpolatedIndex [10, 20, 30, 40] 35 = 5 / 2"
  "specGeneralRank [10, 10, 20, 30] 10 = 1 / 6"
  by (simp_all add: specGeneralRank_def meanIndex_def matchingIndices_def interpolatedIndex_def
        upt_rec)

theorem percentile_rank_rules_witness:
  "createPercentileRanker [Fin 30, NonFinite, Fin 10, Fin 20, Fin 40] (Fin 20) = Some (Fin (1 / 3))
   \<and> createPercentileRanker [Fin 30, NonFinite, Fin 10, Fin 20, Fin 40] (Fin 35) = Some (Fin (5 / 6))"
  using percentile_rank_rules [of 30 "[Fin 30, NonFinite, Fin 10, Fin 20, Fin 40]" 10 20]
    percentile_rank_rules [of 30 "[Fin 30, NonFinite, Fin 10, Fin 20, Fin 40]" 10 35]
  by (simp add: finiteSorted_examples spec_rank_examples)

text \<open>
  The rules as stated fail where the minimum occurs more than once: in [10, 10, 20, 30] the
  occurrences of 10 have mean position 0.5, which the stated rule turns into 1/6, and the
  ranker returns 0.
\<close>

theorem tied_minimum_ranks_zero:
  "createPercentileRanker (map Fin [10, 10, 20, 30]) (Fin 10)
     \<noteq> Some (Fin (specGeneralRank (finiteSorted (map Fin [10, 10, 20, 30])) 10))"
  by (simp add: ranker_unfold finiteSorted_examples spec_rank_examples generalRank_def
        finiteSorted_examples [simplified])

end
